theory Spec2Isabelle
  imports Main "HOL-Library.Monad_Syntax"
begin

section \<open>Values, errors and the remote API's data\<close>

text \<open>
  The resource \<open>ecl_identity_user_v3\<close> of \<open>ecl/resource_ecl_identity_user_v3.go\<close>.
  Go's \<open>interface{}\<close> values that occur in this file are strings, booleans, slices
  (\<open>[]interface{}\<close>) and string-keyed maps (\<open>map[string]interface{}\<close>, kept as an
  association list read with \<open>map_of\<close>).
\<close>

datatype gval = GString string | GBool bool | GList "gval list" | GMap "(string \<times> gval) list"

text \<open>
  A Go error value. \<open>ErrDefault404\<close> is the remote client's "not found" error; every other
  error is known by its message only. \<open>Error\<close> is the method of the same name, used by
  the \<open>%s\<close> verb of \<open>fmt.Errorf\<close>.
\<close>

datatype goerr = ErrDefault404 | ErrMsg string

fun Error :: "goerr \<Rightarrow> string" where
  "Error ErrDefault404 = ''Resource not found''"
| "Error (ErrMsg s) = s"

text \<open>The keys of \<open>users.Option\<close> that the file uses.\<close>

datatype Option = IgnoreChangePasswordUponFirstUse | IgnorePasswordExpiry
  | IgnoreLockoutFailureAttempts | MultiFactorAuthEnabled | MultiFactorAuthRules

text \<open>
  \<open>var userOptions\<close> (lines 11-16). A Go map is iterated in no fixed order; each entry is
  handled on its own, so the table is kept as a list of its four entries.
\<close>

definition userOptions :: "(Option \<times> string) list" where
  "userOptions =
     [(IgnoreChangePasswordUponFirstUse, ''ignore_change_password_upon_first_use''),
      (IgnorePasswordExpiry, ''ignore_password_expiry''),
      (IgnoreLockoutFailureAttempts, ''ignore_lockout_failure_attempts''),
      (MultiFactorAuthEnabled, ''multi_factor_auth_enabled'')]"

text \<open>
  \<open>users.CreateOpts\<close>, \<open>users.UpdateOpts\<close> and \<open>users.User\<close>, with the fields this file
  reads or writes. \<open>Enabled\<close> is a \<open>*bool\<close> in both option structs: \<open>None\<close> is the nil
  pointer. A string left at \<open>''''\<close>, a map left empty and an \<open>Options\<close> map without a key
  are Go's zero values.
\<close>

record CreateOpts =
  DefaultProjectID :: string
  Description :: string
  DomainID :: string
  Enabled :: "bool option"
  Extra :: "(string \<times> gval) list"
  Name :: string
  Options :: "Option \<rightharpoonup> gval"
  Password :: string

type_synonym UpdateOpts = CreateOpts

definition zeroOpts :: CreateOpts where
  "zeroOpts = \<lparr>DefaultProjectID = '''', Description = '''', DomainID = '''', Enabled = None,
     Extra = [], Name = '''', Options = Map.empty, Password = ''''\<rparr>"

record User =
  uID :: string
  uDefaultProjectID :: string
  uDescription :: string
  uDomainID :: string
  uEnabled :: bool
  uExtra :: "(string \<times> gval) list"
  uName :: string
  uOptions :: "string \<rightharpoonup> gval"

section \<open>BuildMFARules\<close>

text \<open>
  \<open>resourceIdentityUserV3BuildMFARules\<close> (lines 301-311). The loop appends to \<open>mfaRules\<close>;
  the two type assertions \<open>rule.(map[string]interface{})\<close> and
  \<open>ruleMap["rule"].([]interface{})\<close> have no \<open>ok\<close> result, so they panic on a value of
  another type and on a missing key: the panic is \<open>None\<close>.
\<close>

fun buildMFARulesLoop :: "gval list \<Rightarrow> gval list \<Rightarrow> gval list option" where
  "buildMFARulesLoop mfaRules [] = Some mfaRules"
| "buildMFARulesLoop mfaRules (rule # rules) =
     (case rule of
        GMap ruleMap \<Rightarrow>
          (case map_of ruleMap ''rule'' of
             Some (GList ruleList) \<Rightarrow> buildMFARulesLoop (mfaRules @ [GList ruleList]) rules
           | _ \<Rightarrow> None)
      | _ \<Rightarrow> None)"

definition resourceIdentityUserV3BuildMFARules :: "gval list \<Rightarrow> gval list option" where
  "resourceIdentityUserV3BuildMFARules rules = buildMFARulesLoop [] rules"

text \<open>A group that carries a \<open>rule\<close> field holding a sequence, and that sequence.\<close>

fun hasRule :: "gval \<Rightarrow> bool" where
  "hasRule (GMap m) = (case map_of m ''rule'' of Some (GList _) \<Rightarrow> True | _ \<Rightarrow> False)"
| "hasRule _ = False"

fun ruleOf :: "gval \<Rightarrow> gval" where
  "ruleOf (GMap m) = (case map_of m ''rule'' of Some v \<Rightarrow> v | None \<Rightarrow> GList [])"
| "ruleOf _ = GList []"

section \<open>The configuration snapshot\<close>

text \<open>
  The \<open>Schema\<close> of the resource (lines 28-111): the type of every field.
\<close>

datatype ValueType = TypeBool | TypeString | TypeList | TypeMap

definition Schema :: "(string \<times> ValueType) list" where
  "Schema =
     [(''default_project_id'', TypeString),
      (''description'', TypeString),
      (''domain_id'', TypeString),
      (''enabled'', TypeBool),
      (''extra'', TypeMap),
      (''name'', TypeString),
      (''password'', TypeString),
      (''region'', TypeString),
      (''ignore_change_password_upon_first_use'', TypeBool),
      (''ignore_password_expiry'', TypeBool),
      (''ignore_lockout_failure_attempts'', TypeBool),
      (''multi_factor_auth_enabled'', TypeBool),
      (''multi_factor_auth_rule'', TypeList)]"

fun Zero :: "ValueType \<Rightarrow> gval" where
  "Zero TypeBool = GBool False"
| "Zero TypeString = GString ''''"
| "Zero TypeList = GList []"
| "Zero TypeMap = GMap []"

text \<open>
  \<open>*schema.ResourceData\<close>, the snapshot the hosting framework passes to every callback. It
  belongs to the framework's \<open>helper/schema\<close> package, of which the file uses \<open>Get\<close>,
  \<open>GetOk\<close>, \<open>HasChange\<close>, \<open>Set\<close>, \<open>Id\<close> and \<open>SetId\<close>. The snapshot has three levels: the
  last known state, the planned values (the state merged with the configuration's diff)
  and the values written by \<open>Set\<close>. A key of the schema without a value reads as the zero
  value of its type; a key outside the schema makes the accessor panic (\<open>None\<close>). The
  framework puts a schema default (\<open>enabled\<close>: true) into the planned values itself, and
  values still unknown while planning do not occur in the callbacks.
\<close>

record ResourceData =
  rd_id :: string
  rd_state :: "string \<rightharpoonup> gval"
  rd_plan :: "string \<rightharpoonup> gval"
  rd_set :: "string \<rightharpoonup> gval"

definition readField :: "(string \<rightharpoonup> gval) \<Rightarrow> string \<Rightarrow> gval option" where
  "readField m key =
     (case map_of Schema key of
        None \<Rightarrow> None
      | Some t \<Rightarrow> Some (case m key of Some v \<Rightarrow> v | None \<Rightarrow> Zero t))"

text \<open>\<open>Get\<close> reads the merged view: planned values overlaid with what \<open>Set\<close> wrote.\<close>

definition Get :: "ResourceData \<Rightarrow> string \<Rightarrow> gval option" where
  "Get d key = readField (rd_plan d ++ rd_set d) key"

text \<open>
  \<open>GetOk\<close>, by its documentation in \<open>helper/schema\<close>, "returns the data for the given key
  and whether or not the key has been set to a non-zero value at some point": after
  finding the value it compares it with the zero value of the field's type. So the second
  result is false for a key without a value and also for a value equal to the zero value
  (\<open>false\<close> for a boolean field).
\<close>

definition GetOk :: "ResourceData \<Rightarrow> string \<Rightarrow> (gval \<times> bool) option" where
  "GetOk d key =
     (case map_of Schema key of
        None \<Rightarrow> None
      | Some t \<Rightarrow>
          (case (rd_plan d ++ rd_set d) key of
             None \<Rightarrow> Some (Zero t, False)
           | Some v \<Rightarrow> Some (v, v \<noteq> Zero t)))"

text \<open>\<open>HasChange\<close> compares the field in the last known state with its planned value.\<close>

definition HasChange :: "ResourceData \<Rightarrow> string \<Rightarrow> bool" where
  "HasChange d key = (readField (rd_state d) key \<noteq> readField (rd_plan d) key)"

text \<open>
  \<open>Set\<close> checks the value against the schema of the field before it writes. A boolean
  field takes a boolean and a string field a string; the map field \<open>extra\<close>, whose elements
  are strings, takes a map of strings; the list field \<open>multi_factor_auth_rule\<close> takes a
  list of groups, each a map with no key but \<open>rule\<close>, and \<open>rule\<close> a list of strings
  (lines 97-110; \<open>MinItems\<close> is a check of the configuration, not of \<open>Set\<close>). On any other
  value, and on a key outside the schema, \<open>Set\<close> returns an error and writes nothing. The
  file drops that error at every call (lines 177-201), so the model returns the snapshot
  only: written when the value is accepted, as it was when not.
\<close>

fun isString :: "gval \<Rightarrow> bool" where
  "isString (GString _) = True"
| "isString _ = False"

fun stringList :: "gval \<Rightarrow> bool" where
  "stringList (GList xs) = list_all isString xs"
| "stringList _ = False"

fun ruleGroup :: "gval \<Rightarrow> bool" where
  "ruleGroup (GMap m) = list_all (\<lambda>kv. fst kv = ''rule'' \<and> stringList (snd kv)) m"
| "ruleGroup _ = False"

fun acceptedAs :: "ValueType \<Rightarrow> gval \<Rightarrow> bool" where
  "acceptedAs TypeBool (GBool _) = True"
| "acceptedAs TypeString (GString _) = True"
| "acceptedAs TypeMap (GMap m) = list_all (\<lambda>kv. isString (snd kv)) m"
| "acceptedAs TypeList (GList gs) = list_all ruleGroup gs"
| "acceptedAs _ _ = False"

definition accepted :: "string \<Rightarrow> gval \<Rightarrow> bool" where
  "accepted key v = (case map_of Schema key of None \<Rightarrow> False | Some t \<Rightarrow> acceptedAs t v)"

definition Set :: "ResourceData \<Rightarrow> string \<Rightarrow> gval \<Rightarrow> ResourceData" where
  "Set d key v = (if accepted key v then d\<lparr>rd_set := (rd_set d)(key \<mapsto> v)\<rparr> else d)"

definition Id :: "ResourceData \<Rightarrow> string" where
  "Id d = rd_id d"

definition SetId :: "ResourceData \<Rightarrow> string \<Rightarrow> ResourceData" where
  "SetId d v = d\<lparr>rd_id := v\<rparr>"

text \<open>
  The type assertions \<open>.(string)\<close>, \<open>.(bool)\<close>, \<open>.(map[string]interface{})\<close> and
  \<open>.([]interface{})\<close> on the result of \<open>Get\<close>; each panics on a value of another type.
\<close>

definition GetString :: "ResourceData \<Rightarrow> string \<Rightarrow> string option" where
  "GetString d key = (case Get d key of Some (GString s) \<Rightarrow> Some s | _ \<Rightarrow> None)"

definition GetBool :: "ResourceData \<Rightarrow> string \<Rightarrow> bool option" where
  "GetBool d key = (case Get d key of Some (GBool b) \<Rightarrow> Some b | _ \<Rightarrow> None)"

definition GetMap :: "ResourceData \<Rightarrow> string \<Rightarrow> (string \<times> gval) list option" where
  "GetMap d key = (case Get d key of Some (GMap m) \<Rightarrow> Some m | _ \<Rightarrow> None)"

definition GetList :: "ResourceData \<Rightarrow> string \<Rightarrow> gval list option" where
  "GetList d key = (case Get d key of Some (GList xs) \<Rightarrow> Some xs | _ \<Rightarrow> None)"

text \<open>
  What the framework guarantees of the values \<open>Get\<close> reads: each has the type its schema
  entry declares, and every element of \<open>multi_factor_auth_rule\<close> is a group with its
  required \<open>rule\<close> list.
\<close>

fun hasType :: "ValueType \<Rightarrow> gval \<Rightarrow> bool" where
  "hasType TypeBool (GBool _) = True"
| "hasType TypeString (GString _) = True"
| "hasType TypeList (GList _) = True"
| "hasType TypeMap (GMap _) = True"
| "hasType _ _ = False"

definition fieldOk :: "ResourceData \<Rightarrow> string \<times> ValueType \<Rightarrow> bool" where
  "fieldOk d kt =
     (case (rd_plan d ++ rd_set d) (fst kt) of
        None \<Rightarrow> True
      | Some v \<Rightarrow> hasType (snd kt) v
          \<and> (if fst kt = ''multi_factor_auth_rule''
             then (case v of GList gs \<Rightarrow> list_all hasRule gs | _ \<Rightarrow> False) else True))"

definition wellTyped :: "ResourceData \<Rightarrow> bool" where
  "wellTyped d = list_all (fieldOk d) Schema"

section \<open>The remote client and the provider's context\<close>

text \<open>
  The calls of the \<open>users\<close> package with their \<open>Extract\<close>, as the file sees them: each
  returns a result or an error. What the remote service answers is a parameter.
\<close>

record Client =
  usersCreate :: "CreateOpts \<Rightarrow> goerr + User"
  usersGet :: "string \<Rightarrow> goerr + User"
  usersUpdate :: "string \<Rightarrow> UpdateOpts \<Rightarrow> goerr + User"
  usersDelete :: "string \<Rightarrow> goerr option"

text \<open>
  \<open>meta.(*Config)\<close>. \<open>GetRegion(d, config)\<close> and \<open>config.identityV3Client(region)\<close> are
  defined in other files of the provider; both are parameters here.
\<close>

record Config =
  GetRegion :: "ResourceData \<Rightarrow> string"
  identityV3Client :: "string \<Rightarrow> goerr + Client"

text \<open>
  What a run does besides changing the snapshot: the entries it writes to the debug log
  (each \<open>log.Printf\<close> formats one struct with \<open>%#v\<close>, so the entry is that struct) and the
  calls it sends to the remote service.
\<close>

datatype event =
    LogCreateOptions CreateOpts
  | LogUpdateOptions UpdateOpts
  | LogRetrievedUser User
  | CallCreate CreateOpts
  | CallGet string
  | CallUpdate string UpdateOpts
  | CallDelete string

fun isLog :: "event \<Rightarrow> bool" where
  "isLog (LogCreateOptions _) = True"
| "isLog (LogUpdateOptions _) = True"
| "isLog (LogRetrievedUser _) = True"
| "isLog _ = False"

definition debugLog :: "event list \<Rightarrow> event list" where
  "debugLog tr = filter isLog tr"

fun createRequests :: "event list \<Rightarrow> CreateOpts list" where
  "createRequests [] = []"
| "createRequests (CallCreate c # tr) = c # createRequests tr"
| "createRequests (_ # tr) = createRequests tr"

fun updateRequests :: "event list \<Rightarrow> UpdateOpts list" where
  "updateRequests [] = []"
| "updateRequests (CallUpdate _ c # tr) = c # updateRequests tr"
| "updateRequests (_ # tr) = updateRequests tr"

fun getRequests :: "event list \<Rightarrow> string list" where
  "getRequests [] = []"
| "getRequests (CallGet i # tr) = i # getRequests tr"
| "getRequests (_ # tr) = getRequests tr"

text \<open>
  The outcome of a callback: it panics after some events, or it returns an error
  (\<open>None\<close> for \<open>nil\<close>) and leaves a snapshot, after its events in order.
\<close>

datatype outcome = Panic "event list" | Return "goerr option" ResourceData "event list"

fun events :: "outcome \<Rightarrow> event list" where
  "events (Panic tr) = tr"
| "events (Return _ _ tr) = tr"

text \<open>An outcome that follows events which have already happened.\<close>

fun after :: "event list \<Rightarrow> outcome \<Rightarrow> outcome" where
  "after tr (Panic tr') = Panic (tr @ tr')"
| "after tr (Return e d tr') = Return e d (tr @ tr')"

text \<open>What \<open>Get\<close> reads from the snapshot a callback leaves, if it returns.\<close>

fun readBack :: "outcome \<Rightarrow> string \<Rightarrow> gval option" where
  "readBack (Panic _) key = None"
| "readBack (Return _ d _) key = Get d key"

text \<open>The error a callback returns and the identifier of the snapshot it leaves.\<close>

fun returned :: "outcome \<Rightarrow> goerr option option" where
  "returned (Panic _) = None"
| "returned (Return e _ _) = Some e"

fun leftId :: "outcome \<Rightarrow> string option" where
  "leftId (Panic _) = None"
| "leftId (Return _ d _) = Some (Id d)"

definition optionOf :: "Option \<Rightarrow> CreateOpts \<Rightarrow> gval option" where
  "optionOf optionType opts = Options opts optionType"

section \<open>Read\<close>

text \<open>
  Modelled from the spec: \<open>CheckDeleted\<close> is defined in another file of the provider. The
  spec says of it: if the remote reports the entity missing, signal
  deletion-of-local-record (the snapshot is cleared rather than erroring the whole
  operation); any other failure is a hard error. Clearing is \<open>SetId\<close> with the empty
  identifier, the framework's signal that the record is gone.
\<close>

definition CheckDeleted :: "ResourceData \<Rightarrow> goerr \<Rightarrow> string \<Rightarrow> ResourceData \<times> goerr option" where
  "CheckDeleted d err msg =
     (case err of
        ErrDefault404 \<Rightarrow> (SetId d '''', None)
      | _ \<Rightarrow> (d, Some err))"

text \<open>Lines 185-190: the loop over \<open>userOptions\<close>; \<open>v.(bool)\<close> panics on another type.\<close>

fun readFlags :: "(string \<rightharpoonup> gval) \<Rightarrow> (Option \<times> string) list \<Rightarrow> ResourceData \<Rightarrow> ResourceData option" where
  "readFlags options [] d = Some d"
| "readFlags options ((optionType, option) # rest) d =
     (case options option of
        Some v \<Rightarrow>
          (case v of
             GBool b \<Rightarrow> readFlags options rest (Set d option (GBool b))
           | _ \<Rightarrow> None)
      | None \<Rightarrow> readFlags options rest d)"

text \<open>Lines 192-202: the comma-ok assertion \<open>.([]interface{})\<close> does not panic.\<close>

definition readMFARules :: "(string \<rightharpoonup> gval) \<Rightarrow> ResourceData \<Rightarrow> ResourceData" where
  "readMFARules options d =
     (case options ''multi_factor_auth_rules'' of
        Some (GList vs) \<Rightarrow>
          Set d ''multi_factor_auth_rule'' (GList (map (\<lambda>v. GMap [(''rule'', v)]) vs))
      | _ \<Rightarrow> d)"

text \<open>Lines 177-183.\<close>

definition readScalars :: "Config \<Rightarrow> User \<Rightarrow> ResourceData \<Rightarrow> ResourceData" where
  "readScalars config user d =
     (let d1 = Set d ''default_project_id'' (GString (uDefaultProjectID user));
          d2 = Set d1 ''description'' (GString (uDescription user));
          d3 = Set d2 ''domain_id'' (GString (uDomainID user));
          d4 = Set d3 ''enabled'' (GBool (uEnabled user));
          d5 = Set d4 ''extra'' (GMap (uExtra user));
          d6 = Set d5 ''name'' (GString (uName user))
      in Set d6 ''region'' (GString (GetRegion config d6)))"

definition resourceIdentityUserV3Read :: "ResourceData \<Rightarrow> Config \<Rightarrow> outcome" where
  "resourceIdentityUserV3Read d config =
     (case identityV3Client config (GetRegion config d) of
        Inl err \<Rightarrow>
          Return (Some (ErrMsg (''Error creating ECL identity client: '' @ Error err))) d []
      | Inr identityClient \<Rightarrow>
          (case usersGet identityClient (Id d) of
             Inl err \<Rightarrow>
               (case CheckDeleted d err ''user'' of
                  (d', e) \<Rightarrow> Return e d' [CallGet (Id d)])
           | Inr user \<Rightarrow>
               (case readFlags (uOptions user) userOptions (readScalars config user d) of
                  None \<Rightarrow> Panic [CallGet (Id d), LogRetrievedUser user]
                | Some d' \<Rightarrow>
                    Return None (readMFARules (uOptions user) d')
                      [CallGet (Id d), LogRetrievedUser user])))"

section \<open>Create\<close>

text \<open>Lines 133-138: the loop over \<open>userOptions\<close>.\<close>

fun createFlags :: "ResourceData \<Rightarrow> (Option \<times> string) list \<Rightarrow> (Option \<rightharpoonup> gval) \<Rightarrow> (Option \<rightharpoonup> gval) option" where
  "createFlags d [] options = Some options"
| "createFlags d ((optionType, option) # rest) options =
     (case GetOk d option of
        None \<Rightarrow> None
      | Some (v, ok) \<Rightarrow>
          (if ok
           then (case v of
                   GBool b \<Rightarrow> createFlags d rest (options(optionType \<mapsto> GBool b))
                 | _ \<Rightarrow> None)
           else createFlags d rest options))"

text \<open>Lines 132-144: the options map of the create request.\<close>

definition createOptions :: "ResourceData \<Rightarrow> (Option \<rightharpoonup> gval) option" where
  "createOptions d = do {
     options \<leftarrow> createFlags d userOptions Map.empty;
     rules \<leftarrow> GetList d ''multi_factor_auth_rule'';
     mfaRules \<leftarrow> resourceIdentityUserV3BuildMFARules rules;
     Some (if length mfaRules > 0 then options(MultiFactorAuthRules \<mapsto> GList mfaRules)
           else options)
   }"

text \<open>Lines 122-146: \<open>createOpts\<close> as it is logged, the password not yet in it.\<close>

definition createOptsLogged :: "ResourceData \<Rightarrow> CreateOpts option" where
  "createOptsLogged d = do {
     enabled \<leftarrow> GetBool d ''enabled'';
     defaultProjectID \<leftarrow> GetString d ''default_project_id'';
     description \<leftarrow> GetString d ''description'';
     domainID \<leftarrow> GetString d ''domain_id'';
     extra \<leftarrow> GetMap d ''extra'';
     name \<leftarrow> GetString d ''name'';
     options \<leftarrow> createOptions d;
     Some \<lparr>DefaultProjectID = defaultProjectID, Description = description,
           DomainID = domainID, Enabled = Some enabled, Extra = extra, Name = name,
           Options = options, Password = ''''\<rparr>
   }"

definition resourceIdentityUserV3Create :: "ResourceData \<Rightarrow> Config \<Rightarrow> outcome" where
  "resourceIdentityUserV3Create d config =
     (case identityV3Client config (GetRegion config d) of
        Inl err \<Rightarrow>
          Return (Some (ErrMsg (''Error creating ECL identity client: '' @ Error err))) d []
      | Inr identityClient \<Rightarrow>
          (case createOptsLogged d of
             None \<Rightarrow> Panic []
           | Some logged \<Rightarrow>
               (case GetString d ''password'' of
                  None \<Rightarrow> Panic [LogCreateOptions logged]
                | Some password \<Rightarrow>
                    (let createOpts = logged\<lparr>Password := password\<rparr> in
                     case usersCreate identityClient createOpts of
                       Inl err \<Rightarrow>
                         Return (Some (ErrMsg (''Error creating ECL user: '' @ Error err))) d
                           [LogCreateOptions logged, CallCreate createOpts]
                     | Inr user \<Rightarrow>
                         after [LogCreateOptions logged, CallCreate createOpts]
                           (resourceIdentityUserV3Read (SetId d (uID user)) config)))))"

section \<open>Update\<close>

text \<open>
  Lines 214-246: one step for each scalar field. A step takes \<open>hasChange\<close> and
  \<open>updateOpts\<close> and returns both.
\<close>

definition updDefaultProjectID :: "ResourceData \<Rightarrow> bool \<times> UpdateOpts \<Rightarrow> (bool \<times> UpdateOpts) option" where
  "updDefaultProjectID d s =
     (if HasChange d ''default_project_id''
      then do { v \<leftarrow> GetString d ''default_project_id''; Some (True, (snd s)\<lparr>DefaultProjectID := v\<rparr>) }
      else Some s)"

definition updDescription :: "ResourceData \<Rightarrow> bool \<times> UpdateOpts \<Rightarrow> (bool \<times> UpdateOpts) option" where
  "updDescription d s =
     (if HasChange d ''description''
      then do { v \<leftarrow> GetString d ''description''; Some (True, (snd s)\<lparr>Description := v\<rparr>) }
      else Some s)"

definition updDomainID :: "ResourceData \<Rightarrow> bool \<times> UpdateOpts \<Rightarrow> (bool \<times> UpdateOpts) option" where
  "updDomainID d s =
     (if HasChange d ''domain_id''
      then do { v \<leftarrow> GetString d ''domain_id''; Some (True, (snd s)\<lparr>DomainID := v\<rparr>) }
      else Some s)"

definition updEnabled :: "ResourceData \<Rightarrow> bool \<times> UpdateOpts \<Rightarrow> (bool \<times> UpdateOpts) option" where
  "updEnabled d s =
     (if HasChange d ''enabled''
      then do { enabled \<leftarrow> GetBool d ''enabled''; Some (True, (snd s)\<lparr>Enabled := Some enabled\<rparr>) }
      else Some s)"

definition updExtra :: "ResourceData \<Rightarrow> bool \<times> UpdateOpts \<Rightarrow> (bool \<times> UpdateOpts) option" where
  "updExtra d s =
     (if HasChange d ''extra''
      then do { v \<leftarrow> GetMap d ''extra''; Some (True, (snd s)\<lparr>Extra := v\<rparr>) }
      else Some s)"

definition updName :: "ResourceData \<Rightarrow> bool \<times> UpdateOpts \<Rightarrow> (bool \<times> UpdateOpts) option" where
  "updName d s =
     (if HasChange d ''name''
      then do { v \<leftarrow> GetString d ''name''; Some (True, (snd s)\<lparr>Name := v\<rparr>) }
      else Some s)"

text \<open>Lines 249-255: the loop over \<open>userOptions\<close>, on \<open>hasChange\<close> and \<open>options\<close>.\<close>

fun updateFlags :: "ResourceData \<Rightarrow> (Option \<times> string) list \<Rightarrow> bool \<times> (Option \<rightharpoonup> gval) \<Rightarrow> (bool \<times> (Option \<rightharpoonup> gval)) option" where
  "updateFlags d [] s = Some s"
| "updateFlags d ((optionType, option) # rest) s =
     (if HasChange d option
      then do { b \<leftarrow> GetBool d option; updateFlags d rest (True, (snd s)(optionType \<mapsto> GBool b)) }
      else updateFlags d rest s)"

text \<open>Lines 257-263: the MFA rules; \<open>hasChange\<close> is not assigned here.\<close>

definition updateMFARules :: "ResourceData \<Rightarrow> (Option \<rightharpoonup> gval) \<Rightarrow> (Option \<rightharpoonup> gval) option" where
  "updateMFARules d options =
     (if HasChange d ''multi_factor_auth_rule''
      then do {
        rules \<leftarrow> GetList d ''multi_factor_auth_rule'';
        mfaRules \<leftarrow> resourceIdentityUserV3BuildMFARules rules;
        Some (if length mfaRules > 0 then options(MultiFactorAuthRules \<mapsto> GList mfaRules)
              else options)
      }
      else Some options)"

text \<open>Lines 214-265: \<open>hasChange\<close> and \<open>updateOpts\<close> where the file logs them.\<close>

definition updateOptsLogged :: "ResourceData \<Rightarrow> (bool \<times> UpdateOpts) option" where
  "updateOptsLogged d = do {
     s \<leftarrow> updDefaultProjectID d (False, zeroOpts);
     s \<leftarrow> updDescription d s;
     s \<leftarrow> updDomainID d s;
     s \<leftarrow> updEnabled d s;
     s \<leftarrow> updExtra d s;
     s \<leftarrow> updName d s;
     (hasChange, options) \<leftarrow> updateFlags d userOptions (fst s, Map.empty);
     options \<leftarrow> updateMFARules d options;
     Some (hasChange, (snd s)\<lparr>Options := options\<rparr>)
   }"

text \<open>Lines 271-274.\<close>

definition updPassword :: "ResourceData \<Rightarrow> bool \<times> UpdateOpts \<Rightarrow> (bool \<times> UpdateOpts) option" where
  "updPassword d s =
     (if HasChange d ''password''
      then do { v \<leftarrow> GetString d ''password''; Some (True, (snd s)\<lparr>Password := v\<rparr>) }
      else Some s)"

definition resourceIdentityUserV3Update :: "ResourceData \<Rightarrow> Config \<Rightarrow> outcome" where
  "resourceIdentityUserV3Update d config =
     (case identityV3Client config (GetRegion config d) of
        Inl err \<Rightarrow>
          Return (Some (ErrMsg (''Error creating ECL identity client: '' @ Error err))) d []
      | Inr identityClient \<Rightarrow>
          (case updateOptsLogged d of
             None \<Rightarrow> Panic []
           | Some logged \<Rightarrow>
               (let logEntry = (if fst logged then [LogUpdateOptions (snd logged)] else []) in
                case updPassword d logged of
                  None \<Rightarrow> Panic logEntry
                | Some (hasChange, updateOpts) \<Rightarrow>
                    (if hasChange
                     then (case usersUpdate identityClient (Id d) updateOpts of
                             Inl err \<Rightarrow>
                               Return (Some (ErrMsg (''Error updating ECL user: '' @ Error err))) d
                                 (logEntry @ [CallUpdate (Id d) updateOpts])
                           | Inr _ \<Rightarrow>
                               after (logEntry @ [CallUpdate (Id d) updateOpts])
                                 (resourceIdentityUserV3Read d config))
                     else after logEntry (resourceIdentityUserV3Read d config)))))"

section \<open>Delete\<close>

definition resourceIdentityUserV3Delete :: "ResourceData \<Rightarrow> Config \<Rightarrow> outcome" where
  "resourceIdentityUserV3Delete d config =
     (case identityV3Client config (GetRegion config d) of
        Inl err \<Rightarrow>
          Return (Some (ErrMsg (''Error creating ECL identity client: '' @ Error err))) d []
      | Inr identityClient \<Rightarrow>
          (case usersDelete identityClient (Id d) of
             Some err \<Rightarrow>
               Return (Some (ErrMsg (''Error deleting ECL user: '' @ Error err))) d
                 [CallDelete (Id d)]
           | None \<Rightarrow> Return None d [CallDelete (Id d)]))"

section \<open>Vocabulary of the properties\<close>

text \<open>
  The remote service's answer is well formed for \<open>Read\<close> when each of the four flag keys
  it carries holds a boolean, so that \<open>v.(bool)\<close> does not panic.
\<close>

definition flagsAreBool :: "(string \<rightharpoonup> gval) \<Rightarrow> bool" where
  "flagsAreBool options =
     list_all (\<lambda>(optionType, option).
        case options option of Some (GBool _) \<Rightarrow> True | Some _ \<Rightarrow> False | None \<Rightarrow> True) userOptions"

text \<open>The fields of lines 217-246, and all fields \<open>Update\<close> looks at.\<close>

definition scalarFields :: "string list" where
  "scalarFields = [''default_project_id'', ''description'', ''domain_id'', ''enabled'', ''extra'', ''name'']"

definition trackedFields :: "string list" where
  "trackedFields = [''default_project_id'', ''description'', ''domain_id'', ''enabled'', ''extra'',
     ''name'', ''password'', ''ignore_change_password_upon_first_use'', ''ignore_password_expiry'',
     ''ignore_lockout_failure_attempts'', ''multi_factor_auth_enabled'', ''multi_factor_auth_rule'']"

text \<open>The same snapshot with another planned password.\<close>

definition withPassword :: "ResourceData \<Rightarrow> string \<Rightarrow> ResourceData" where
  "withPassword d p = d\<lparr>rd_plan := (rd_plan d)(''password'' \<mapsto> GString p)\<rparr>"

section \<open>Concrete snapshots and remote answers\<close>

text \<open>
  A remote service that answers every call with the same user or the same error, and the
  snapshots of the scenarios: a create of user \<open>alice\<close> with one MFA rule and
  \<open>ignore_password_expiry\<close> set to false, and updates of a stored user \<open>u1\<close>.
\<close>

definition optionsMFA :: "string \<rightharpoonup> gval" where
  "optionsMFA = [''multi_factor_auth_enabled'' \<mapsto> GBool True,
     ''multi_factor_auth_rules'' \<mapsto> GList [GList [GString ''otp'', GString ''sms'']]]"

definition optionsMalformed :: "string \<rightharpoonup> gval" where
  "optionsMalformed = [''multi_factor_auth_rules'' \<mapsto> GList [GString ''sms'', GString ''pw'']]"

definition optionsNone :: "string \<rightharpoonup> gval" where
  "optionsNone = Map.empty"

definition exampleUser :: "(string \<rightharpoonup> gval) \<Rightarrow> User" where
  "exampleUser options = \<lparr>uID = ''u1'', uDefaultProjectID = ''p1'', uDescription = ''desc'',
     uDomainID = ''dom'', uEnabled = True, uExtra = [], uName = ''alice'', uOptions = options\<rparr>"

definition exampleClient :: "goerr + User \<Rightarrow> Client" where
  "exampleClient answer = \<lparr>usersCreate = (\<lambda>_. answer), usersGet = (\<lambda>_. answer),
     usersUpdate = (\<lambda>_ _. answer), usersDelete = (\<lambda>_. None)\<rparr>"

definition exampleConfig :: "goerr + User \<Rightarrow> Config" where
  "exampleConfig answer = \<lparr>GetRegion = (\<lambda>_. ''jp1''),
     identityV3Client = (\<lambda>_. Inr (exampleClient answer))\<rparr>"

definition clientMFA :: Client where
  "clientMFA = exampleClient (Inr (exampleUser optionsMFA))"

definition configMFA :: Config where
  "configMFA = exampleConfig (Inr (exampleUser optionsMFA))"

definition configMalformed :: Config where
  "configMalformed = exampleConfig (Inr (exampleUser optionsMalformed))"

definition configPlain :: Config where
  "configPlain = exampleConfig (Inr (exampleUser optionsNone))"

definition configMissing :: Config where
  "configMissing = exampleConfig (Inl ErrDefault404)"

definition configFailing :: Config where
  "configFailing = exampleConfig (Inl (ErrMsg ''timeout''))"

definition snapshotCreate :: ResourceData where
  "snapshotCreate = \<lparr>rd_id = '''', rd_state = Map.empty,
     rd_plan = [''name'' \<mapsto> GString ''alice'', ''enabled'' \<mapsto> GBool True,
       ''password'' \<mapsto> GString ''s3cret'',
       ''ignore_password_expiry'' \<mapsto> GBool False,
       ''multi_factor_auth_enabled'' \<mapsto> GBool True,
       ''multi_factor_auth_rule'' \<mapsto>
          GList [GMap [(''rule'', GList [GString ''otp'', GString ''sms''])]]],
     rd_set = Map.empty\<rparr>"

definition stateOld :: "string \<rightharpoonup> gval" where
  "stateOld = [''name'' \<mapsto> GString ''alice'', ''enabled'' \<mapsto> GBool True,
     ''description'' \<mapsto> GString ''old'', ''password'' \<mapsto> GString ''s3cret'']"

definition ruleOtp :: gval where
  "ruleOtp = GList [GMap [(''rule'', GList [GString ''otp''])]]"

definition snapshotUpdate :: "(string \<rightharpoonup> gval) \<Rightarrow> (string \<rightharpoonup> gval) \<Rightarrow> ResourceData" where
  "snapshotUpdate state plan = \<lparr>rd_id = ''u1'', rd_state = state, rd_plan = plan, rd_set = Map.empty\<rparr>"

definition snapshotDescription :: ResourceData where
  "snapshotDescription = snapshotUpdate stateOld (stateOld(''description'' \<mapsto> GString ''new''))"

definition snapshotEnabled :: ResourceData where
  "snapshotEnabled = snapshotUpdate stateOld (stateOld(''enabled'' \<mapsto> GBool False))"

definition snapshotRulesOnly :: ResourceData where
  "snapshotRulesOnly = snapshotUpdate stateOld (stateOld(''multi_factor_auth_rule'' \<mapsto> ruleOtp))"

definition snapshotRulesCleared :: ResourceData where
  "snapshotRulesCleared =
     snapshotUpdate (stateOld(''multi_factor_auth_rule'' \<mapsto> ruleOtp))
       (stateOld(''description'' \<mapsto> GString ''new''))"

definition snapshotRules :: ResourceData where
  "snapshotRules =
     snapshotUpdate stateOld
       (stateOld(''description'' \<mapsto> GString ''new'', ''multi_factor_auth_rule'' \<mapsto> ruleOtp))"

definition snapshotStale :: ResourceData where
  "snapshotStale =
     snapshotUpdate (stateOld(''multi_factor_auth_rule'' \<mapsto> ruleOtp))
       (stateOld(''multi_factor_auth_rule'' \<mapsto> ruleOtp))"

definition snapshotFlag :: ResourceData where
  "snapshotFlag =
     snapshotUpdate (stateOld(''ignore_password_expiry'' \<mapsto> GBool True))
       (stateOld(''ignore_password_expiry'' \<mapsto> GBool True))"

section \<open>Flattening the rule groups\<close>

lemma buildMFARulesLoop_map:
  "list_all hasRule rules \<Longrightarrow> buildMFARulesLoop acc rules = Some (acc @ map ruleOf rules)"
proof (induction rules arbitrary: acc)
  case Nil
  then show ?case by simp
next
  case (Cons g gs)
  from Cons.prems have g: "hasRule g" and gs: "list_all hasRule gs" by simp_all
  from g obtain m rl where m: "g = GMap m" "map_of m ''rule'' = Some (GList rl)"
    by (cases g) (auto split: option.splits gval.splits)
  show ?case using m Cons.IH [OF gs] by simp
qed

lemma BuildMFARules_map:
  "list_all hasRule rules \<Longrightarrow> resourceIdentityUserV3BuildMFARules rules = Some (map ruleOf rules)"
  by (simp add: resourceIdentityUserV3BuildMFARules_def buildMFARulesLoop_map)

section \<open>Reading and writing the snapshot\<close>

lemma Set_fields [simp]:
  "rd_id (Set d k v) = rd_id d" "rd_state (Set d k v) = rd_state d"
  "rd_plan (Set d k v) = rd_plan d"
  by (simp_all add: Set_def)

lemma Set_accepted:
  "accepted k v \<Longrightarrow> rd_set (Set d k v) = (rd_set d)(k \<mapsto> v)"
  by (simp add: Set_def)

lemma Set_refused: "\<not> accepted k v \<Longrightarrow> Set d k v = d"
  by (simp add: Set_def)

lemma Set_other: "k' \<noteq> k \<Longrightarrow> rd_set (Set d k v) k' = rd_set d k'"
  by (simp add: Set_def)

lemma accepted_bool: "map_of Schema k = Some TypeBool \<Longrightarrow> accepted k (GBool b)"
  by (simp add: accepted_def)

lemma ruleGroup_built: "list_all ruleGroup (map (\<lambda>v. GMap [(''rule'', v)]) vs) = list_all stringList vs"
  by (induction vs) simp_all

lemma accepted_rules:
  "accepted ''multi_factor_auth_rule'' (GList (map (\<lambda>v. GMap [(''rule'', v)]) vs))
     = list_all stringList vs"
  by (simp add: accepted_def Schema_def ruleGroup_built)

lemma readFlags_sets:
  assumes "list_all (\<lambda>(optionType, option).
        case options option of Some (GBool _) \<Rightarrow> True | Some _ \<Rightarrow> False | None \<Rightarrow> True) xs"
    and "\<forall>(optionType, option) \<in> set xs. map_of Schema option = Some TypeBool"
  shows "\<exists>d'. readFlags options xs d = Some d' \<and> rd_id d' = rd_id d \<and> rd_state d' = rd_state d
           \<and> rd_plan d' = rd_plan d
           \<and> (\<forall>k. rd_set d' k = (if k \<in> snd ` set xs \<and> options k \<noteq> None then options k else rd_set d k))"
  using assms
proof (induction xs arbitrary: d)
  case Nil
  then show ?case by simp
next
  case (Cons x xs)
  obtain optionType option where x: "x = (optionType, option)" by (cases x)
  from Cons.prems x have rest: "list_all (\<lambda>(optionType, option).
        case options option of Some (GBool _) \<Rightarrow> True | Some _ \<Rightarrow> False | None \<Rightarrow> True) xs"
    and keys: "\<forall>(optionType, option) \<in> set xs. map_of Schema option = Some TypeBool"
    and key: "map_of Schema option = Some TypeBool"
    by simp_all
  show ?case
  proof (cases "options option")
    case None
    with Cons.IH [OF rest keys, of d] x show ?thesis by auto
  next
    case (Some v)
    with Cons.prems(1) x obtain b where v: "v = GBool b" by (cases v) auto
    have w: "rd_set (Set d option (GBool b)) = (rd_set d)(option \<mapsto> GBool b)"
      by (rule Set_accepted [OF accepted_bool [OF key]])
    from Cons.IH [OF rest keys, of "Set d option (GBool b)"] Some v x w show ?thesis by auto
  qed
qed

lemma readScalars_fields [simp]:
  "rd_id (readScalars config user d) = rd_id d"
  "rd_state (readScalars config user d) = rd_state d"
  "rd_plan (readScalars config user d) = rd_plan d"
  by (simp_all add: readScalars_def Let_def)

lemma readScalars_other:
  "k \<notin> {''default_project_id'', ''description'', ''domain_id'', ''enabled'', ''extra'', ''name'', ''region''}
   \<Longrightarrow> rd_set (readScalars config user d) k = rd_set d k"
  by (simp add: readScalars_def Let_def Set_other)

lemma readMFARules_fields [simp]:
  "rd_id (readMFARules options d) = rd_id d"
  "rd_state (readMFARules options d) = rd_state d"
  "rd_plan (readMFARules options d) = rd_plan d"
  by (simp_all add: readMFARules_def split: option.splits gval.splits)

lemma readMFARules_written:
  assumes "options ''multi_factor_auth_rules'' = Some (GList vs)" and "list_all stringList vs"
  shows "rd_set (readMFARules options d) ''multi_factor_auth_rule''
       = Some (GList (map (\<lambda>v. GMap [(''rule'', v)]) vs))"
  using assms by (simp add: readMFARules_def Set_accepted accepted_rules)

lemma readMFARules_refused:
  assumes "options ''multi_factor_auth_rules'' = Some (GList vs)" and "\<not> list_all stringList vs"
  shows "readMFARules options d = d"
  using assms by (simp add: readMFARules_def Set_refused accepted_rules)

lemma readMFARules_absent:
  assumes "\<forall>vs. options ''multi_factor_auth_rules'' \<noteq> Some (GList vs)"
  shows "readMFARules options d = d"
  using assms by (simp add: readMFARules_def split: option.splits gval.splits)

lemma readMFARules_other:
  "k \<noteq> ''multi_factor_auth_rule'' \<Longrightarrow> rd_set (readMFARules options d) k = rd_set d k"
  by (simp add: readMFARules_def Set_other split: option.splits gval.splits)

lemma Read_fetched:
  assumes "identityV3Client config (GetRegion config d) = Inr client"
    and "usersGet client (Id d) = Inr user"
    and "flagsAreBool (uOptions user)"
  shows "\<exists>d1. readFlags (uOptions user) userOptions (readScalars config user d) = Some d1
      \<and> resourceIdentityUserV3Read d config
          = Return None (readMFARules (uOptions user) d1) [CallGet (Id d), LogRetrievedUser user]
      \<and> rd_plan d1 = rd_plan d
      \<and> (\<forall>k. rd_set d1 k = (if k \<in> snd ` set userOptions \<and> uOptions user k \<noteq> None then uOptions user k
                             else rd_set (readScalars config user d) k))"
proof -
  have keys: "\<forall>(optionType, option) \<in> set userOptions. map_of Schema option = Some TypeBool"
    by (simp add: userOptions_def Schema_def)
  from assms(3) readFlags_sets [OF _ keys, of "uOptions user" "readScalars config user d"]
  obtain d1 where d1: "readFlags (uOptions user) userOptions (readScalars config user d) = Some d1"
    "rd_plan d1 = rd_plan d"
    "\<forall>k. rd_set d1 k = (if k \<in> snd ` set userOptions \<and> uOptions user k \<noteq> None then uOptions user k
                             else rd_set (readScalars config user d) k)"
    unfolding flagsAreBool_def by auto
  then show ?thesis using assms(1,2)
    by (simp add: resourceIdentityUserV3Read_def)
qed

lemma Get_eq:
  "rd_plan d' = rd_plan d \<Longrightarrow> rd_set d' k = rd_set d k \<Longrightarrow> Get d' k = Get d k"
  by (simp add: Get_def readField_def map_add_def split: option.splits)

lemma Get_written:
  "rd_set d k = Some v \<Longrightarrow> map_of Schema k \<noteq> None \<Longrightarrow> Get d k = Some v"
  by (auto simp add: Get_def readField_def map_add_def split: option.splits)

lemma Schema_flags:
  "(optionType, option) \<in> set userOptions \<Longrightarrow> map_of Schema option = Some TypeBool"
  by (auto simp: userOptions_def Schema_def)

lemma flags_not_scalars:
  "(optionType, option) \<in> set userOptions \<Longrightarrow>
   option \<notin> {''default_project_id'', ''description'', ''domain_id'', ''enabled'', ''extra'', ''name'', ''region''}
   \<and> option \<noteq> ''multi_factor_auth_rule''"
  by (auto simp: userOptions_def)

section \<open>Snapshots with schema-typed values\<close>

lemma wellTyped_field:
  "wellTyped d \<Longrightarrow> map_of Schema k = Some t \<Longrightarrow> fieldOk d (k, t)"
  by (auto simp: wellTyped_def list_all_iff dest: map_of_SomeD)

lemma hasType_Zero: "hasType t (Zero t)"
  by (cases t) simp_all

lemma typed_string:
  assumes "wellTyped d" "map_of Schema k = Some TypeString"
  shows "\<exists>s. GetString d k = Some s"
proof (cases "(rd_plan d ++ rd_set d) k")
  case None
  with assms(2) show ?thesis by (simp add: GetString_def Get_def readField_def del: map_add_None)
next
  case (Some v)
  with wellTyped_field [OF assms] obtain s where "v = GString s"
    by (cases v) (auto simp: fieldOk_def)
  with Some assms(2) show ?thesis by (simp add: GetString_def Get_def readField_def)
qed

lemma typed_bool:
  assumes "wellTyped d" "map_of Schema k = Some TypeBool"
  shows "\<exists>b. GetBool d k = Some b"
proof (cases "(rd_plan d ++ rd_set d) k")
  case None
  with assms(2) show ?thesis by (auto simp add: GetBool_def Get_def readField_def simp del: map_add_None)
next
  case (Some v)
  with wellTyped_field [OF assms] obtain s where "v = GBool s"
    by (cases v) (auto simp: fieldOk_def)
  with Some assms(2) show ?thesis by (simp add: GetBool_def Get_def readField_def)
qed

lemma typed_map:
  assumes "wellTyped d" "map_of Schema k = Some TypeMap"
  shows "\<exists>m. GetMap d k = Some m"
proof (cases "(rd_plan d ++ rd_set d) k")
  case None
  with assms(2) show ?thesis by (simp add: GetMap_def Get_def readField_def del: map_add_None)
next
  case (Some v)
  with wellTyped_field [OF assms] obtain s where "v = GMap s"
    by (cases v) (auto simp: fieldOk_def)
  with Some assms(2) show ?thesis by (simp add: GetMap_def Get_def readField_def)
qed

lemma Schema_rule: "map_of Schema ''multi_factor_auth_rule'' = Some TypeList"
  by (simp add: Schema_def)

lemma typed_rules:
  assumes "wellTyped d"
  shows "\<exists>rules. GetList d ''multi_factor_auth_rule'' = Some rules \<and> list_all hasRule rules"
proof (cases "(rd_plan d ++ rd_set d) ''multi_factor_auth_rule''")
  case None
  then show ?thesis by (simp add: GetList_def Get_def readField_def Schema_rule del: map_add_None)
next
  case (Some v)
  with wellTyped_field [OF assms Schema_rule] obtain gs where "v = GList gs" "list_all hasRule gs"
    by (cases v) (auto simp: fieldOk_def)
  with Some show ?thesis by (simp add: GetList_def Get_def readField_def Schema_rule)
qed

lemma typed_GetOk:
  assumes "wellTyped d" "map_of Schema k = Some TypeBool"
  shows "GetOk d k = Some (GBool (Get d k = Some (GBool True)), Get d k = Some (GBool True))"
proof (cases "(rd_plan d ++ rd_set d) k")
  case None
  with assms(2) show ?thesis by (simp add: GetOk_def Get_def readField_def del: map_add_None)
next
  case (Some v)
  with wellTyped_field [OF assms] obtain s where "v = GBool s"
    by (cases v) (auto simp: fieldOk_def)
  with Some assms(2) show ?thesis by (simp add: GetOk_def Get_def readField_def)
qed

lemma createFlags_step:
  assumes "wellTyped d" "map_of Schema option = Some TypeBool"
  shows "createFlags d ((optionType, option) # rest) options =
     createFlags d rest
       (if Get d option = Some (GBool True) then options(optionType \<mapsto> GBool True) else options)"
  by (simp add: typed_GetOk [OF assms])

lemma createFlags_userOptions:
  assumes "wellTyped d"
  shows "\<exists>options. createFlags d userOptions Map.empty = Some options
     \<and> options MultiFactorAuthRules = None
     \<and> (\<forall>(optionType, option) \<in> set userOptions.
          options optionType
            = (if Get d option = Some (GBool True) then Some (GBool True) else None))"
proof -
  have s: "map_of Schema ''ignore_change_password_upon_first_use'' = Some TypeBool"
    "map_of Schema ''ignore_password_expiry'' = Some TypeBool"
    "map_of Schema ''ignore_lockout_failure_attempts'' = Some TypeBool"
    "map_of Schema ''multi_factor_auth_enabled'' = Some TypeBool"
    by (simp_all add: Schema_def)
  show ?thesis
    unfolding userOptions_def
    by (simp add: createFlags_step [OF assms s(1)] createFlags_step [OF assms s(2)]
        createFlags_step [OF assms s(3)] createFlags_step [OF assms s(4)]
        del: createFlags.simps(2))
qed

lemma createOptions_typed:
  assumes "wellTyped d"
  shows "\<exists>options rules. createOptions d = Some options
     \<and> GetList d ''multi_factor_auth_rule'' = Some rules
     \<and> options MultiFactorAuthRules = (if rules = [] then None else Some (GList (map ruleOf rules)))
     \<and> (\<forall>(optionType, option) \<in> set userOptions.
          options optionType
            = (if Get d option = Some (GBool True) then Some (GBool True) else None))"
proof -
  from createFlags_userOptions [OF assms] obtain flags where
    f: "createFlags d userOptions Map.empty = Some flags" "flags MultiFactorAuthRules = None"
     "\<forall>(optionType, option) \<in> set userOptions.
          flags optionType = (if Get d option = Some (GBool True) then Some (GBool True) else None)"
    by blast
  from typed_rules [OF assms] obtain rules where
    r: "GetList d ''multi_factor_auth_rule'' = Some rules" "list_all hasRule rules" by blast
  have notRules: "optionType \<noteq> MultiFactorAuthRules"
    if "(optionType, option) \<in> set userOptions" for optionType option
    using that by (auto simp: userOptions_def)
  have "createOptions d
      = Some (if rules = [] then flags else flags(MultiFactorAuthRules \<mapsto> GList (map ruleOf rules)))"
    using f(1) r by (simp add: createOptions_def BuildMFARules_map)
  moreover have "\<forall>(optionType, option) \<in> set userOptions.
      (if rules = [] then flags else flags(MultiFactorAuthRules \<mapsto> GList (map ruleOf rules))) optionType
       = (if Get d option = Some (GBool True) then Some (GBool True) else None)"
    using f(3) notRules by fastforce
  ultimately show ?thesis using r(1) f(2) by auto
qed

lemma createOptsLogged_typed:
  assumes "wellTyped d"
  shows "\<exists>logged. createOptsLogged d = Some logged"
proof -
  have s: "map_of Schema ''enabled'' = Some TypeBool"
    "map_of Schema ''default_project_id'' = Some TypeString"
    "map_of Schema ''description'' = Some TypeString"
    "map_of Schema ''domain_id'' = Some TypeString"
    "map_of Schema ''extra'' = Some TypeMap"
    "map_of Schema ''name'' = Some TypeString"
    by (simp_all add: Schema_def)
  from typed_bool [OF assms s(1)] typed_string [OF assms s(2)] typed_string [OF assms s(3)]
    typed_string [OF assms s(4)] typed_map [OF assms s(5)] typed_string [OF assms s(6)]
    createOptions_typed [OF assms]
  show ?thesis unfolding createOptsLogged_def by auto
qed

lemma createOptsLogged_fields:
  assumes "createOptsLogged d = Some logged"
  shows "Password logged = ''''" "Enabled logged = GetBool d ''enabled''"
    "GetBool d ''enabled'' \<noteq> None" "createOptions d = Some (Options logged)"
  using assms by (auto simp: createOptsLogged_def split: Option.bind_splits)

lemma events_after [simp]: "events (after tr r) = tr @ events r"
  by (cases r) simp_all

lemma createRequests_append [simp]:
  "createRequests (tr @ tr') = createRequests tr @ createRequests tr'"
  by (induction tr rule: createRequests.induct) simp_all

lemma updateRequests_append [simp]:
  "updateRequests (tr @ tr') = updateRequests tr @ updateRequests tr'"
  by (induction tr rule: updateRequests.induct) simp_all

lemma debugLog_append [simp]: "debugLog (tr @ tr') = debugLog tr @ debugLog tr'"
  by (simp add: debugLog_def)

lemma Read_events:
  "events (resourceIdentityUserV3Read d config) =
     (case identityV3Client config (GetRegion config d) of
        Inl err \<Rightarrow> []
      | Inr client \<Rightarrow>
          (case usersGet client (Id d) of
             Inl err \<Rightarrow> [CallGet (Id d)]
           | Inr user \<Rightarrow> [CallGet (Id d), LogRetrievedUser user]))"
  by (simp add: resourceIdentityUserV3Read_def split: sum.splits option.splits prod.splits)

lemma Read_no_requests [simp]:
  "createRequests (events (resourceIdentityUserV3Read d config)) = []"
  "updateRequests (events (resourceIdentityUserV3Read d config)) = []"
  by (simp_all add: Read_events split: sum.splits)

lemma Create_events:
  assumes "identityV3Client config (GetRegion config d) = Inr client"
    and "createOptsLogged d = Some logged"
    and "GetString d ''password'' = Some password"
  shows "events (resourceIdentityUserV3Create d config) =
     [LogCreateOptions logged, CallCreate (logged\<lparr>Password := password\<rparr>)]
     @ (case usersCreate client (logged\<lparr>Password := password\<rparr>) of
          Inl err \<Rightarrow> []
        | Inr user \<Rightarrow> events (resourceIdentityUserV3Read (SetId d (uID user)) config))"
  using assms by (simp add: resourceIdentityUserV3Create_def Let_def split: sum.splits)

lemma Create_requests:
  assumes "identityV3Client config (GetRegion config d) = Inr client"
    and "createOptsLogged d = Some logged"
    and "GetString d ''password'' = Some password"
  shows "createRequests (events (resourceIdentityUserV3Create d config))
      = [logged\<lparr>Password := password\<rparr>]"
  by (simp add: Create_events [OF assms] split: sum.splits)

lemma Create_request_cases:
  assumes "c \<in> set (createRequests (events (resourceIdentityUserV3Create d config)))"
  shows "\<exists>logged password. createOptsLogged d = Some logged
     \<and> GetString d ''password'' = Some password \<and> c = logged\<lparr>Password := password\<rparr>"
  using assms
  by (auto simp: resourceIdentityUserV3Create_def Let_def split: sum.splits option.splits)

section \<open>The steps of Update\<close>

lemma updDefaultProjectID_result:
  assumes "updDefaultProjectID d s = Some s'"
  shows "fst s' = (fst s \<or> HasChange d ''default_project_id'')"
    "Password (snd s') = Password (snd s)" "Enabled (snd s') = Enabled (snd s)"
  using assms by (auto simp: updDefaultProjectID_def split: if_splits Option.bind_splits)

lemma updDescription_result:
  assumes "updDescription d s = Some s'"
  shows "fst s' = (fst s \<or> HasChange d ''description'')"
    "Password (snd s') = Password (snd s)" "Enabled (snd s') = Enabled (snd s)"
  using assms by (auto simp: updDescription_def split: if_splits Option.bind_splits)

lemma updDomainID_result:
  assumes "updDomainID d s = Some s'"
  shows "fst s' = (fst s \<or> HasChange d ''domain_id'')"
    "Password (snd s') = Password (snd s)" "Enabled (snd s') = Enabled (snd s)"
  using assms by (auto simp: updDomainID_def split: if_splits Option.bind_splits)

lemma updEnabled_result:
  assumes "updEnabled d s = Some s'"
  shows "fst s' = (fst s \<or> HasChange d ''enabled'')"
    "Password (snd s') = Password (snd s)"
    "Enabled (snd s') = (if HasChange d ''enabled'' then GetBool d ''enabled'' else Enabled (snd s))"
    "HasChange d ''enabled'' \<longrightarrow> GetBool d ''enabled'' \<noteq> None"
  using assms by (auto simp: updEnabled_def split: if_splits Option.bind_splits)

lemma updExtra_result:
  assumes "updExtra d s = Some s'"
  shows "fst s' = (fst s \<or> HasChange d ''extra'')"
    "Password (snd s') = Password (snd s)" "Enabled (snd s') = Enabled (snd s)"
  using assms by (auto simp: updExtra_def split: if_splits Option.bind_splits)

lemma updName_result:
  assumes "updName d s = Some s'"
  shows "fst s' = (fst s \<or> HasChange d ''name'')"
    "Password (snd s') = Password (snd s)" "Enabled (snd s') = Enabled (snd s)"
  using assms by (auto simp: updName_def split: if_splits Option.bind_splits)

lemma updateFlags_result:
  assumes "updateFlags d xs (h, options) = Some (h', options')"
  shows "h' = (h \<or> (\<exists>(optionType, option) \<in> set xs. HasChange d option))
     \<and> (\<forall>t. t \<notin> fst ` set xs \<longrightarrow> options' t = options t)"
  using assms
proof (induction xs arbitrary: h options)
  case Nil
  then show ?case by simp
next
  case (Cons x xs)
  obtain optionType option where x: "x = (optionType, option)" by (cases x)
  show ?case
  proof (cases "HasChange d option")
    case True
    with Cons.prems x obtain b where
      "updateFlags d xs (True, options(optionType \<mapsto> GBool b)) = Some (h', options')"
      by (auto split: Option.bind_splits)
    from Cons.IH [OF this] True x show ?thesis by auto
  next
    case False
    with Cons.prems x have "updateFlags d xs (h, options) = Some (h', options')" by simp
    from Cons.IH [OF this] False x show ?thesis by auto
  qed
qed

lemma updateMFARules_result:
  assumes "updateMFARules d options = Some options'"
  shows "if HasChange d ''multi_factor_auth_rule''
     then \<exists>rules mfaRules. GetList d ''multi_factor_auth_rule'' = Some rules
            \<and> resourceIdentityUserV3BuildMFARules rules = Some mfaRules
            \<and> options' = (if mfaRules = [] then options
                           else options(MultiFactorAuthRules \<mapsto> GList mfaRules))
     else options' = options"
  using assms by (auto simp: updateMFARules_def split: if_splits Option.bind_splits)

lemma updateOptsLogged_result:
  assumes "updateOptsLogged d = Some (hasChange, updateOpts)"
  shows "hasChange = ((\<exists>key \<in> set scalarFields. HasChange d key)
            \<or> (\<exists>(optionType, option) \<in> set userOptions. HasChange d option))"
    and "Password updateOpts = ''''"
    and "Enabled updateOpts = (if HasChange d ''enabled'' then GetBool d ''enabled'' else None)"
    and "HasChange d ''enabled'' \<longrightarrow> GetBool d ''enabled'' \<noteq> None"
    and "if HasChange d ''multi_factor_auth_rule''
     then \<exists>rules mfaRules. GetList d ''multi_factor_auth_rule'' = Some rules
            \<and> resourceIdentityUserV3BuildMFARules rules = Some mfaRules
            \<and> Options updateOpts MultiFactorAuthRules
                 = (if mfaRules = [] then None else Some (GList mfaRules))
     else Options updateOpts MultiFactorAuthRules = None"
proof -
  from assms obtain s1 s2 s3 s4 s5 s6 h options options' where
    s1: "updDefaultProjectID d (False, zeroOpts) = Some s1"
    and s2: "updDescription d s1 = Some s2"
    and s3: "updDomainID d s2 = Some s3"
    and s4: "updEnabled d s3 = Some s4"
    and s5: "updExtra d s4 = Some s5"
    and s6: "updName d s5 = Some s6"
    and fl: "updateFlags d userOptions (fst s6, Map.empty) = Some (h, options)"
    and mf: "updateMFARules d options = Some options'"
    and res: "hasChange = h" "updateOpts = (snd s6)\<lparr>Options := options'\<rparr>"
    by (auto simp: updateOptsLogged_def split: Option.bind_splits)
  note r1 = updDefaultProjectID_result [OF s1]
  note r2 = updDescription_result [OF s2]
  note r3 = updDomainID_result [OF s3]
  note r4 = updEnabled_result [OF s4]
  note r5 = updExtra_result [OF s5]
  note r6 = updName_result [OF s6]
  note rf = updateFlags_result [OF fl]
  note rm = updateMFARules_result [OF mf]
  have "fst s6 = (\<exists>key \<in> set scalarFields. HasChange d key)"
    using r1(1) r2(1) r3(1) r4(1) r5(1) r6(1) by (simp add: scalarFields_def)
  with rf res(1) show "hasChange = ((\<exists>key \<in> set scalarFields. HasChange d key)
            \<or> (\<exists>(optionType, option) \<in> set userOptions. HasChange d option))"
    by simp
  show "Password updateOpts = ''''"
    using r1(2) r2(2) r3(2) r4(2) r5(2) r6(2) res(2) by (simp add: zeroOpts_def)
  show "Enabled updateOpts = (if HasChange d ''enabled'' then GetBool d ''enabled'' else None)"
    using r1(3) r2(3) r3(3) r4(3) r5(3) r6(3) res(2) by (simp add: zeroOpts_def)
  show "HasChange d ''enabled'' \<longrightarrow> GetBool d ''enabled'' \<noteq> None" by (rule r4(4))
  have none: "options MultiFactorAuthRules = None"
    using rf by (simp add: userOptions_def)
  have o: "Options updateOpts = options'" using res(2) by simp
  show "if HasChange d ''multi_factor_auth_rule''
     then \<exists>rules mfaRules. GetList d ''multi_factor_auth_rule'' = Some rules
            \<and> resourceIdentityUserV3BuildMFARules rules = Some mfaRules
            \<and> Options updateOpts MultiFactorAuthRules
                 = (if mfaRules = [] then None else Some (GList mfaRules))
     else Options updateOpts MultiFactorAuthRules = None"
  proof (cases "HasChange d ''multi_factor_auth_rule''")
    case True
    with rm obtain rules mfaRules where
      "GetList d ''multi_factor_auth_rule'' = Some rules"
      "resourceIdentityUserV3BuildMFARules rules = Some mfaRules"
      "options' = (if mfaRules = [] then options
                           else options(MultiFactorAuthRules \<mapsto> GList mfaRules))"
      by auto
    with True o none show ?thesis by auto
  next
    case False
    with rm o none show ?thesis by simp
  qed
qed

lemma updPassword_result:
  assumes "updPassword d logged = Some (hasChange, updateOpts)"
  shows "hasChange = (fst logged \<or> HasChange d ''password'')"
    and "Options updateOpts = Options (snd logged)"
    and "Enabled updateOpts = Enabled (snd logged)"
    and "if HasChange d ''password'' then GetString d ''password'' = Some (Password updateOpts)
         else Password updateOpts = Password (snd logged)"
  using assms by (auto simp: updPassword_def split: if_splits Option.bind_splits)

lemma Update_request_cases:
  assumes "c \<in> set (updateRequests (events (resourceIdentityUserV3Update d config)))"
  shows "\<exists>logged. updateOptsLogged d = Some logged \<and> updPassword d logged = Some (True, c)"
  using assms
  by (auto simp: resourceIdentityUserV3Update_def Let_def
      split: sum.splits option.splits if_splits)

lemma Update_events:
  assumes "identityV3Client config (GetRegion config d) = Inr client"
    and "updateOptsLogged d = Some logged"
    and "updPassword d logged = Some (hasChange, updateOpts)"
  shows "events (resourceIdentityUserV3Update d config) =
     (if fst logged then [LogUpdateOptions (snd logged)] else [])
     @ (if hasChange
        then CallUpdate (Id d) updateOpts
             # (case usersUpdate client (Id d) updateOpts of
                  Inl err \<Rightarrow> []
                | Inr _ \<Rightarrow> events (resourceIdentityUserV3Read d config))
        else events (resourceIdentityUserV3Read d config))"
  using assms by (simp add: resourceIdentityUserV3Update_def Let_def split: sum.splits)

lemma only_description:
  assumes "\<forall>key \<in> set trackedFields. HasChange d key = (key = ''description'')"
    and "GetString d ''description'' = Some new"
  shows "updateOptsLogged d = Some (True, zeroOpts\<lparr>Description := new\<rparr>)"
    and "updPassword d (True, zeroOpts\<lparr>Description := new\<rparr>)
           = Some (True, zeroOpts\<lparr>Description := new\<rparr>)"
proof -
  from assms(1) have h: "\<not> HasChange d ''default_project_id''" "HasChange d ''description''"
    "\<not> HasChange d ''domain_id''" "\<not> HasChange d ''enabled''" "\<not> HasChange d ''extra''"
    "\<not> HasChange d ''name''" "\<not> HasChange d ''password''"
    "\<not> HasChange d ''ignore_change_password_upon_first_use''"
    "\<not> HasChange d ''ignore_password_expiry''"
    "\<not> HasChange d ''ignore_lockout_failure_attempts''"
    "\<not> HasChange d ''multi_factor_auth_enabled''"
    "\<not> HasChange d ''multi_factor_auth_rule''"
    by (simp_all add: trackedFields_def)
  show "updateOptsLogged d = Some (True, zeroOpts\<lparr>Description := new\<rparr>)"
    using h assms(2)
    by (simp add: updateOptsLogged_def updDefaultProjectID_def updDescription_def updDomainID_def
        updEnabled_def updExtra_def updName_def userOptions_def updateMFARules_def zeroOpts_def)
  show "updPassword d (True, zeroOpts\<lparr>Description := new\<rparr>)
           = Some (True, zeroOpts\<lparr>Description := new\<rparr>)"
    using h(7) by (simp add: updPassword_def)
qed

lemma updateFlags_typed:
  assumes "wellTyped d" "\<forall>(optionType, option) \<in> set xs. map_of Schema option = Some TypeBool"
  shows "\<exists>s'. updateFlags d xs s = Some s'"
  using assms(2)
proof (induction xs arbitrary: s)
  case Nil
  then show ?case by simp
next
  case (Cons x xs)
  obtain optionType option where x: "x = (optionType, option)" by (cases x)
  with Cons.prems have b: "map_of Schema option = Some TypeBool"
    and rest: "\<forall>(optionType, option) \<in> set xs. map_of Schema option = Some TypeBool" by auto
  from typed_bool [OF assms(1) b] obtain v where v: "GetBool d option = Some v" by blast
  show ?case using x v Cons.IH [OF rest] by simp
qed

lemma updateMFARules_typed:
  assumes "wellTyped d"
  shows "\<exists>options'. updateMFARules d options = Some options'"
proof -
  from typed_rules [OF assms] obtain rules where
    "GetList d ''multi_factor_auth_rule'' = Some rules" "list_all hasRule rules" by blast
  then show ?thesis by (simp add: updateMFARules_def BuildMFARules_map)
qed

lemma updateOptsLogged_typed:
  assumes "wellTyped d"
  shows "\<exists>logged. updateOptsLogged d = Some logged"
proof -
  have s: "map_of Schema ''default_project_id'' = Some TypeString"
    "map_of Schema ''description'' = Some TypeString"
    "map_of Schema ''domain_id'' = Some TypeString"
    "map_of Schema ''enabled'' = Some TypeBool"
    "map_of Schema ''extra'' = Some TypeMap"
    "map_of Schema ''name'' = Some TypeString"
    by (simp_all add: Schema_def)
  have fl: "\<forall>(optionType, option) \<in> set userOptions. map_of Schema option = Some TypeBool"
    by (simp add: userOptions_def Schema_def)
  from typed_string [OF assms s(1)] have "\<exists>s1. updDefaultProjectID d (False, zeroOpts) = Some s1"
    by (auto simp: updDefaultProjectID_def)
  then obtain s1 where s1: "updDefaultProjectID d (False, zeroOpts) = Some s1" ..
  from typed_string [OF assms s(2)] have "\<exists>s2. updDescription d s1 = Some s2"
    by (auto simp: updDescription_def)
  then obtain s2 where s2: "updDescription d s1 = Some s2" ..
  from typed_string [OF assms s(3)] have "\<exists>s3. updDomainID d s2 = Some s3"
    by (auto simp: updDomainID_def)
  then obtain s3 where s3: "updDomainID d s2 = Some s3" ..
  from typed_bool [OF assms s(4)] have "\<exists>s4. updEnabled d s3 = Some s4"
    by (auto simp: updEnabled_def)
  then obtain s4 where s4: "updEnabled d s3 = Some s4" ..
  from typed_map [OF assms s(5)] have "\<exists>s5. updExtra d s4 = Some s5"
    by (auto simp: updExtra_def)
  then obtain s5 where s5: "updExtra d s4 = Some s5" ..
  from typed_string [OF assms s(6)] have "\<exists>s6. updName d s5 = Some s6"
    by (auto simp: updName_def)
  then obtain s6 where s6: "updName d s5 = Some s6" ..
  from updateFlags_typed [OF assms fl] obtain h options where
    f: "updateFlags d userOptions (fst s6, Map.empty) = Some (h, options)" by fastforce
  from updateMFARules_typed [OF assms] obtain options' where
    m: "updateMFARules d options = Some options'" by blast
  show ?thesis using s1 s2 s3 s4 s5 s6 f m by (simp add: updateOptsLogged_def)
qed

lemma updPassword_typed:
  assumes "wellTyped d"
  shows "\<exists>s'. updPassword d s = Some s'"
proof -
  have "map_of Schema ''password'' = Some TypeString" by (simp add: Schema_def)
  from typed_string [OF assms this] show ?thesis by (auto simp: updPassword_def)
qed

lemma Update_requests_typed:
  assumes "wellTyped d" and "identityV3Client config (GetRegion config d) = Inr client"
  shows "\<exists>c. updateRequests (events (resourceIdentityUserV3Update d config)) =
     (if \<exists>key \<in> set trackedFields. key \<noteq> ''multi_factor_auth_rule'' \<and> HasChange d key
      then [c] else [])"
proof -
  from updateOptsLogged_typed [OF assms(1)] obtain h lo where
    l: "updateOptsLogged d = Some (h, lo)" by fastforce
  from updPassword_typed [OF assms(1)] obtain hasChange c where
    p: "updPassword d (h, lo) = Some (hasChange, c)" by fastforce
  from updateOptsLogged_result(1) [OF l] updPassword_result(1) [OF p]
  have "hasChange = (\<exists>key \<in> set trackedFields. key \<noteq> ''multi_factor_auth_rule'' \<and> HasChange d key)"
    by (simp add: scalarFields_def userOptions_def trackedFields_def) blast
  with Update_events [OF assms(2) l p] show ?thesis
    by (auto split: sum.splits)
qed

section \<open>Runs that differ in the password\<close>

lemma withPassword_fields [simp]:
  "rd_id (withPassword d p) = rd_id d" "rd_state (withPassword d p) = rd_state d"
  "rd_set (withPassword d p) = rd_set d"
  "rd_plan (withPassword d p) = (rd_plan d)(''password'' \<mapsto> GString p)"
  by (simp_all add: withPassword_def)

lemma withPassword_Id [simp]: "Id (withPassword d p) = Id d"
  by (simp add: Id_def)

lemma withPassword_SetId: "SetId (withPassword d p) v = withPassword (SetId d v) p"
  by (simp add: SetId_def withPassword_def)

lemma withPassword_Get:
  "key \<noteq> ''password'' \<Longrightarrow> Get (withPassword d p) key = Get d key"
  by (simp add: Get_def readField_def map_add_def split: option.splits)

lemma withPassword_GetOk:
  "key \<noteq> ''password'' \<Longrightarrow> GetOk (withPassword d p) key = GetOk d key"
  by (simp add: GetOk_def map_add_def split: option.splits)

lemma withPassword_HasChange:
  "key \<noteq> ''password'' \<Longrightarrow> HasChange (withPassword d p) key = HasChange d key"
  by (simp add: HasChange_def readField_def split: option.splits)

lemma withPassword_getters:
  assumes "key \<noteq> ''password''"
  shows "GetString (withPassword d p) key = GetString d key"
    "GetBool (withPassword d p) key = GetBool d key"
    "GetMap (withPassword d p) key = GetMap d key"
    "GetList (withPassword d p) key = GetList d key"
  by (simp_all add: GetString_def GetBool_def GetMap_def GetList_def withPassword_Get [OF assms])

lemma withPassword_createFlags_list:
  assumes "\<forall>(optionType, option) \<in> set xs. option \<noteq> ''password''"
  shows "createFlags (withPassword d p) xs options = createFlags d xs options"
  using assms
proof (induction xs arbitrary: options)
  case Nil
  then show ?case by simp
next
  case (Cons x xs)
  obtain optionType option where x: "x = (optionType, option)" by (cases x)
  with Cons.prems have k: "option \<noteq> ''password''"
    and rest: "\<forall>(optionType, option) \<in> set xs. option \<noteq> ''password''" by auto
  have "createFlags (withPassword d p) (x # xs) options =
     (case GetOk d option of
        None \<Rightarrow> None
      | Some (v, ok) \<Rightarrow>
          (if ok
           then (case v of
                   GBool b \<Rightarrow> createFlags (withPassword d p) xs (options(optionType \<mapsto> GBool b))
                 | _ \<Rightarrow> None)
           else createFlags (withPassword d p) xs options))"
    by (simp add: x withPassword_GetOk [OF k])
  also have "\<dots> = createFlags d (x # xs) options"
    unfolding Cons.IH [OF rest] by (simp add: x)
  finally show ?case .
qed

lemma withPassword_createFlags:
  "createFlags (withPassword d p) userOptions options = createFlags d userOptions options"
  by (rule withPassword_createFlags_list) (simp add: userOptions_def)

lemma withPassword_createOptsLogged:
  "createOptsLogged (withPassword d p) = createOptsLogged d"
  by (simp add: createOptsLogged_def createOptions_def withPassword_createFlags
      withPassword_getters)

lemma withPassword_updateFlags_list:
  assumes "\<forall>(optionType, option) \<in> set xs. option \<noteq> ''password''"
  shows "updateFlags (withPassword d p) xs s = updateFlags d xs s"
  using assms
proof (induction xs arbitrary: s)
  case Nil
  then show ?case by simp
next
  case (Cons x xs)
  obtain optionType option where x: "x = (optionType, option)" by (cases x)
  with Cons.prems have k: "option \<noteq> ''password''"
    and rest: "\<forall>(optionType, option) \<in> set xs. option \<noteq> ''password''" by auto
  have "updateFlags (withPassword d p) (x # xs) s =
     (if HasChange d option
      then do { b \<leftarrow> GetBool d option;
                updateFlags (withPassword d p) xs (True, (snd s)(optionType \<mapsto> GBool b)) }
      else updateFlags (withPassword d p) xs s)"
    by (simp add: x withPassword_HasChange [OF k] withPassword_getters [OF k])
  also have "\<dots> = updateFlags d (x # xs) s"
    unfolding Cons.IH [OF rest] by (simp add: x)
  finally show ?case .
qed

lemma withPassword_updateFlags:
  "updateFlags (withPassword d p) userOptions s = updateFlags d userOptions s"
  by (rule withPassword_updateFlags_list) (simp add: userOptions_def)

lemma withPassword_steps:
  "updDefaultProjectID (withPassword d p) = updDefaultProjectID d"
  "updDescription (withPassword d p) = updDescription d"
  "updDomainID (withPassword d p) = updDomainID d"
  "updEnabled (withPassword d p) = updEnabled d"
  "updExtra (withPassword d p) = updExtra d"
  "updName (withPassword d p) = updName d"
  "updateMFARules (withPassword d p) = updateMFARules d"
  by (simp_all add: fun_eq_iff updDefaultProjectID_def updDescription_def updDomainID_def
      updEnabled_def updExtra_def updName_def updateMFARules_def
      withPassword_HasChange withPassword_getters)

lemma withPassword_updateOptsLogged:
  "updateOptsLogged (withPassword d p) = updateOptsLogged d"
  unfolding updateOptsLogged_def withPassword_steps withPassword_updateFlags ..

lemma withPassword_typed_password:
  assumes "GetString d ''password'' = Some v"
  shows "\<exists>v'. GetString (withPassword d p) ''password'' = Some v'"
  using assms
  by (auto simp: GetString_def Get_def readField_def map_add_def Schema_def
      split: option.splits gval.splits)

lemma withPassword_Read_events:
  assumes "\<forall>d'. GetRegion config (withPassword d' p) = GetRegion config d'"
  shows "events (resourceIdentityUserV3Read (withPassword d p) config)
       = events (resourceIdentityUserV3Read d config)"
  using assms by (simp add: Read_events split: sum.splits)

lemma debugLog_simps [simp]:
  "debugLog [] = []"
  "debugLog (LogCreateOptions c # tr) = LogCreateOptions c # debugLog tr"
  "debugLog (LogUpdateOptions c # tr) = LogUpdateOptions c # debugLog tr"
  "debugLog (LogRetrievedUser u # tr) = LogRetrievedUser u # debugLog tr"
  "debugLog (CallCreate c # tr) = debugLog tr"
  "debugLog (CallUpdate i c # tr) = debugLog tr"
  "debugLog (CallGet i # tr) = debugLog tr"
  "debugLog (CallDelete i # tr) = debugLog tr"
  by (simp_all add: debugLog_def)

lemma Create_log_independent:
  assumes typed: "\<exists>v. GetString d ''password'' = Some v"
    and region: "\<forall>d'. GetRegion config (withPassword d' p) = GetRegion config d'"
    and client: "identityV3Client config (GetRegion config d) = Inr client"
    and answer: "\<forall>c pw. usersCreate client (c\<lparr>Password := pw\<rparr>) = usersCreate client c"
  shows "debugLog (events (resourceIdentityUserV3Create (withPassword d p) config))
       = debugLog (events (resourceIdentityUserV3Create d config))"
proof (cases "createOptsLogged d")
  case None
  then show ?thesis using client region
    by (simp add: resourceIdentityUserV3Create_def withPassword_createOptsLogged)
next
  case (Some logged)
  from typed obtain v where v: "GetString d ''password'' = Some v" ..
  from withPassword_typed_password [OF v] obtain v' where
    v': "GetString (withPassword d p) ''password'' = Some v'" ..
  have client': "identityV3Client config (GetRegion config (withPassword d p)) = Inr client"
    using client region by simp
  have logged': "createOptsLogged (withPassword d p) = Some logged"
    using Some by (simp add: withPassword_createOptsLogged)
  have same: "usersCreate client (logged\<lparr>Password := v'\<rparr>) = usersCreate client (logged\<lparr>Password := v\<rparr>)"
    using answer by simp
  show ?thesis
    unfolding Create_events [OF client Some v] Create_events [OF client' logged' v'] same
    by (simp add: withPassword_SetId withPassword_Read_events [OF region] split: sum.splits)
qed

lemma Read_event_cases:
  assumes "e \<in> set (events (resourceIdentityUserV3Read d config))"
  shows "(\<exists>i. e = CallGet i) \<or> (\<exists>u. e = LogRetrievedUser u)"
proof (cases "identityV3Client config (GetRegion config d)")
  case (Inl err)
  with assms show ?thesis by (simp add: Read_events)
next
  case (Inr client)
  with assms show ?thesis
    by (cases "usersGet client (Id d)") (auto simp add: Read_events)
qed

lemma Create_logged_password:
  assumes "LogCreateOptions c \<in> set (events (resourceIdentityUserV3Create d config))"
  shows "Password c = ''''"
proof (cases "identityV3Client config (GetRegion config d)")
  case (Inl err)
  with assms show ?thesis by (simp add: resourceIdentityUserV3Create_def)
next
  case client: (Inr client)
  show ?thesis
  proof (cases "createOptsLogged d")
    case None
    with assms client show ?thesis by (simp add: resourceIdentityUserV3Create_def)
  next
    case logged: (Some logged)
    have c: "c = logged"
    proof (cases "GetString d ''password''")
      case None
      with assms client logged show ?thesis by (simp add: resourceIdentityUserV3Create_def)
    next
      case (Some password)
      from assms [unfolded Create_events [OF client logged Some]]
      show ?thesis by (auto split: sum.splits dest: Read_event_cases)
    qed
    from createOptsLogged_fields(1) [OF logged] c show ?thesis by simp
  qed
qed

lemma Update_logged_password:
  assumes "LogUpdateOptions c \<in> set (events (resourceIdentityUserV3Update d config))"
  shows "Password c = ''''"
proof (cases "identityV3Client config (GetRegion config d)")
  case (Inl err)
  with assms show ?thesis by (simp add: resourceIdentityUserV3Update_def)
next
  case client: (Inr client)
  show ?thesis
  proof (cases "updateOptsLogged d")
    case None
    with assms client show ?thesis by (simp add: resourceIdentityUserV3Update_def)
  next
    case logged: (Some logged)
    obtain h lo where hl: "logged = (h, lo)" by (cases logged)
    have c: "c = lo"
    proof (cases "updPassword d logged")
      case None
      with assms client logged hl show ?thesis
        by (simp add: resourceIdentityUserV3Update_def split: if_splits)
    next
      case (Some s)
      obtain hasChange uo where s: "s = (hasChange, uo)" by (cases s)
      from assms [unfolded Update_events [OF client logged Some [unfolded s]]] hl
      show ?thesis by (auto split: sum.splits if_splits dest: Read_event_cases)
    qed
    from updateOptsLogged_result(2) [OF logged [unfolded hl]] c show ?thesis by simp
  qed
qed

lemma Update_log_independent:
  assumes typed: "\<exists>v. GetString d ''password'' = Some v"
    and region: "\<forall>d'. GetRegion config (withPassword d' p) = GetRegion config d'"
    and client: "identityV3Client config (GetRegion config d) = Inr client"
    and answer: "\<forall>c. \<exists>u. usersUpdate client (Id d) c = Inr u"
  shows "debugLog (events (resourceIdentityUserV3Update (withPassword d p) config))
       = debugLog (events (resourceIdentityUserV3Update d config))"
proof (cases "updateOptsLogged d")
  case None
  then show ?thesis using client region
    by (simp add: resourceIdentityUserV3Update_def withPassword_updateOptsLogged)
next
  case (Some logged)
  from typed obtain v where v: "GetString d ''password'' = Some v" ..
  from withPassword_typed_password [OF v] obtain v' where
    v': "GetString (withPassword d p) ''password'' = Some v'" ..
  have client': "identityV3Client config (GetRegion config (withPassword d p)) = Inr client"
    using client region by simp
  have logged': "updateOptsLogged (withPassword d p) = Some logged"
    using Some by (simp add: withPassword_updateOptsLogged)
  from v have "\<exists>h c. updPassword d logged = Some (h, c)"
    by (cases logged) (auto simp add: updPassword_def)
  then obtain h c where s: "updPassword d logged = Some (h, c)" by blast
  from v' have "\<exists>h c. updPassword (withPassword d p) logged = Some (h, c)"
    by (cases logged) (auto simp add: updPassword_def)
  then obtain h' c' where s': "updPassword (withPassword d p) logged = Some (h', c')" by blast
  from answer obtain u where u: "usersUpdate client (Id d) c = Inr u" by blast
  from answer obtain u' where u': "usersUpdate client (Id d) c' = Inr u'" by blast
  show ?thesis
    unfolding Update_events [OF client Some s] Update_events [OF client' logged' s']
    using u u' by (simp add: withPassword_Read_events [OF region])
qed

lemma Update_request_password:
  assumes "c \<in> set (updateRequests (events (resourceIdentityUserV3Update d config)))"
  shows "if HasChange d ''password'' then GetString d ''password'' = Some (Password c)
         else Password c = ''''"
proof -
  from Update_request_cases [OF assms] obtain hasChange updateOpts where
    l: "updateOptsLogged d = Some (hasChange, updateOpts)"
    and p: "updPassword d (hasChange, updateOpts) = Some (True, c)" by force
  from updateOptsLogged_result(2) [OF l] updPassword_result(4) [OF p]
  show ?thesis by (simp split: if_splits)
qed

lemma Create_request_password:
  assumes "wellTyped d" and "identityV3Client config (GetRegion config d) = Inr client"
  shows "\<exists>c. createRequests (events (resourceIdentityUserV3Create d config)) = [c]
     \<and> GetString d ''password'' = Some (Password c)"
proof -
  from createOptsLogged_typed [OF assms(1)] obtain logged where
    l: "createOptsLogged d = Some logged" by blast
  have "map_of Schema ''password'' = Some TypeString" by (simp add: Schema_def)
  from typed_string [OF assms(1) this] obtain password where
    p: "GetString d ''password'' = Some password" by blast
  from Create_requests [OF assms(2) l p] p show ?thesis by simp
qed

lemma withPassword_wellTyped:
  assumes "wellTyped d"
  shows "wellTyped (withPassword d p)"
  unfolding wellTyped_def list_all_iff
proof
  fix kt assume m: "kt \<in> set Schema"
  with assms have ok: "fieldOk d kt" by (simp add: wellTyped_def list_all_iff)
  show "fieldOk (withPassword d p) kt"
  proof (cases "fst kt = ''password''")
    case True
    with m have "snd kt = TypeString" by (auto simp: Schema_def)
    with True ok show ?thesis
      by (auto simp: fieldOk_def map_add_def split: option.splits)
  next
    case False
    with ok show ?thesis by (auto simp: fieldOk_def map_add_def split: option.splits)
  qed
qed

lemma single_run_password:
  assumes "wellTyped d" and "identityV3Client config (GetRegion config d) = Inr client"
  shows "(\<forall>c. LogCreateOptions c \<in> set (events (resourceIdentityUserV3Create d config))
                \<longrightarrow> Password c = '''')
          \<and> (\<forall>c. LogUpdateOptions c \<in> set (events (resourceIdentityUserV3Update d config))
                \<longrightarrow> Password c = '''')
          \<and> (\<exists>c. createRequests (events (resourceIdentityUserV3Create d config)) = [c]
                \<and> GetString d ''password'' = Some (Password c))
          \<and> (\<forall>c \<in> set (updateRequests (events (resourceIdentityUserV3Update d config))).
                if HasChange d ''password'' then GetString d ''password'' = Some (Password c)
                else Password c = '''')"
proof (intro conjI allI impI ballI)
  show "\<exists>c. createRequests (events (resourceIdentityUserV3Create d config)) = [c]
                \<and> GetString d ''password'' = Some (Password c)"
    by (rule Create_request_password [OF assms])
qed (erule Create_logged_password Update_logged_password Update_request_password)+

section \<open>The scenarios, evaluated\<close>

lemmas example_defs = optionsMFA_def optionsNone_def optionsMalformed_def configMalformed_def exampleUser_def exampleClient_def
  exampleConfig_def clientMFA_def configMFA_def configPlain_def configMissing_def
  configFailing_def snapshotCreate_def stateOld_def ruleOtp_def snapshotUpdate_def
  snapshotDescription_def snapshotEnabled_def snapshotRulesOnly_def snapshotRulesCleared_def
  snapshotRules_def snapshotStale_def snapshotFlag_def withPassword_def

lemmas snapshot_defs = Schema_def readField_def Get_def GetOk_def HasChange_def Set_def
  accepted_def Id_def
  SetId_def GetString_def GetBool_def GetMap_def GetList_def

lemmas read_defs = resourceIdentityUserV3Read_def CheckDeleted_def readScalars_def
  readMFARules_def userOptions_def

lemmas create_defs = resourceIdentityUserV3Create_def createOptsLogged_def createOptions_def
  resourceIdentityUserV3BuildMFARules_def optionOf_def

lemmas update_defs = resourceIdentityUserV3Update_def updateOptsLogged_def updPassword_def
  updDefaultProjectID_def updDescription_def updDomainID_def updEnabled_def updExtra_def
  updName_def updateMFARules_def zeroOpts_def

lemma client_configMFA:
  "identityV3Client configMFA (GetRegion configMFA d) = Inr clientMFA"
  by (simp add: configMFA_def clientMFA_def exampleConfig_def)

lemma wellTyped_snapshotCreate: "wellTyped snapshotCreate"
  by (simp add: wellTyped_def fieldOk_def Schema_def snapshotCreate_def)

lemma wellTyped_snapshotDescription: "wellTyped snapshotDescription"
  by (simp add: wellTyped_def fieldOk_def Schema_def snapshotDescription_def snapshotUpdate_def
      stateOld_def)

lemma wellTyped_snapshotRules: "wellTyped snapshotRules"
  by (simp add: wellTyped_def fieldOk_def Schema_def snapshotRules_def snapshotUpdate_def
      stateOld_def ruleOtp_def)

lemma Create_snapshotCreate:
  "createRequests (events (resourceIdentityUserV3Create snapshotCreate configMFA)) =
     [\<lparr>DefaultProjectID = '''', Description = '''', DomainID = '''', Enabled = Some True,
       Extra = [], Name = ''alice'',
       Options = [MultiFactorAuthEnabled \<mapsto> GBool True,
                  MultiFactorAuthRules \<mapsto> GList [GList [GString ''otp'', GString ''sms'']]],
       Password = ''s3cret''\<rparr>]"
  by (simp add: example_defs snapshot_defs read_defs create_defs)

lemma Update_snapshotDescription:
  "updateRequests (events (resourceIdentityUserV3Update snapshotDescription configMFA)) =
     [zeroOpts\<lparr>Description := ''new''\<rparr>]"
  by (simp add: example_defs snapshot_defs read_defs update_defs)

lemma Update_snapshotDescription_other_password:
  "updateRequests
     (events (resourceIdentityUserV3Update (withPassword snapshotDescription ''hunter2'') configMFA)) =
     [zeroOpts\<lparr>Description := ''new'', Password := ''hunter2''\<rparr>]"
  by (simp add: example_defs snapshot_defs read_defs update_defs)

lemma Update_snapshotEnabled:
  "updateRequests (events (resourceIdentityUserV3Update snapshotEnabled configMFA)) =
     [zeroOpts\<lparr>Enabled := Some False\<rparr>]"
  by (simp add: example_defs snapshot_defs read_defs update_defs)

lemma Update_snapshotRulesOnly:
  "events (resourceIdentityUserV3Update snapshotRulesOnly configMFA) =
     [CallGet ''u1'', LogRetrievedUser (exampleUser optionsMFA)]"
  by (simp add: example_defs snapshot_defs read_defs update_defs create_defs)

lemma Update_snapshotRulesCleared:
  "updateRequests (events (resourceIdentityUserV3Update snapshotRulesCleared configMFA)) =
     [zeroOpts\<lparr>Description := ''new''\<rparr>]"
  by (simp add: example_defs snapshot_defs read_defs update_defs create_defs)

lemma Update_snapshotRules:
  "updateRequests (events (resourceIdentityUserV3Update snapshotRules configMFA)) =
     [zeroOpts\<lparr>Description := ''new'',
        Options := [MultiFactorAuthRules \<mapsto> GList [GList [GString ''otp'']]]\<rparr>]"
  by (simp add: example_defs snapshot_defs read_defs update_defs create_defs)

lemma changes_snapshotRulesOnly:
  "map (HasChange snapshotRulesOnly) trackedFields =
     [False, False, False, False, False, False, False, False, False, False, False, True]"
  by (simp add: trackedFields_def example_defs snapshot_defs)

lemma changes_snapshotDescription:
  "map (HasChange snapshotDescription) trackedFields =
     [False, True, False, False, False, False, False, False, False, False, False, False]"
  by (simp add: trackedFields_def example_defs snapshot_defs)

section \<open>Create: the option flags\<close>

text \<open>
  C1, as amended. In Create, on a snapshot with schema-typed values and with a client, one
  create request is sent, and each of the four flags is in its options map exactly when
  \<open>GetOk\<close> reports the flag set, which it does exactly when the snapshot holds the value
  true for it: a flag set to true is included as true; an absent flag and a flag set to
  false are not included.
\<close>

theorem C1_Create_flags:
  assumes "wellTyped d" and "identityV3Client config (GetRegion config d) = Inr client"
  shows "\<exists>c. createRequests (events (resourceIdentityUserV3Create d config)) = [c]
     \<and> (\<forall>(optionType, option) \<in> set userOptions.
          Options c optionType
            = (if Get d option = Some (GBool True) then Some (GBool True) else None))"
proof -
  from createOptsLogged_typed [OF assms(1)] obtain logged where
    l: "createOptsLogged d = Some logged" by blast
  have "map_of Schema ''password'' = Some TypeString" by (simp add: Schema_def)
  from typed_string [OF assms(1) this] obtain password where
    p: "GetString d ''password'' = Some password" by blast
  from createOptions_typed [OF assms(1)] createOptsLogged_fields(4) [OF l]
  have "\<forall>(optionType, option) \<in> set userOptions.
          Options logged optionType
            = (if Get d option = Some (GBool True) then Some (GBool True) else None)"
    by auto
  with Create_requests [OF assms(2) l p] show ?thesis by simp
qed

text \<open>
  The create scenario: \<open>multi_factor_auth_enabled\<close> is set to true and is sent,
  \<open>ignore_lockout_failure_attempts\<close> is absent and is not sent.
\<close>

theorem C1_Create_flags_witness:
  "wellTyped snapshotCreate
   \<and> identityV3Client configMFA (GetRegion configMFA snapshotCreate) = Inr clientMFA
   \<and> map (optionOf MultiFactorAuthEnabled)
        (createRequests (events (resourceIdentityUserV3Create snapshotCreate configMFA)))
      = [Some (GBool True)]
   \<and> map (optionOf IgnoreLockoutFailureAttempts)
        (createRequests (events (resourceIdentityUserV3Create snapshotCreate configMFA)))
      = [None]"
  using C1_Create_flags [of snapshotCreate configMFA clientMFA]
  by (simp add: wellTyped_snapshotCreate client_configMFA Create_snapshotCreate optionOf_def)

text \<open>
  The claim as stated fails: \<open>ignore_password_expiry\<close> is explicitly set to false in the
  snapshot and the create request does not carry it.
\<close>

theorem C1_explicit_false_counterexample:
  "rd_plan snapshotCreate ''ignore_password_expiry'' = Some (GBool False)
   \<and> map (optionOf IgnorePasswordExpiry)
        (createRequests (events (resourceIdentityUserV3Create snapshotCreate configMFA))) = [None]"
  by (simp add: Create_snapshotCreate optionOf_def) (simp add: snapshotCreate_def)

section \<open>Update: the MFA rules\<close>

text \<open>
  C2, as amended. In Update with a client, when \<open>multi_factor_auth_rule\<close> has changed:
  every update request that is sent carries, under the MFA-rules key of its options, the
  whole recomputed flattened sequence if that sequence is not empty, and no MFA-rules entry
  if it is empty; and one request is sent whenever another tracked field has changed as
  well (on a snapshot with schema-typed values).
\<close>

theorem C2_Update_rules:
  assumes "identityV3Client config (GetRegion config d) = Inr client"
    and "HasChange d ''multi_factor_auth_rule''"
  shows "(\<forall>c \<in> set (updateRequests (events (resourceIdentityUserV3Update d config))).
           \<exists>rules mfaRules. GetList d ''multi_factor_auth_rule'' = Some rules
             \<and> resourceIdentityUserV3BuildMFARules rules = Some mfaRules
             \<and> Options c MultiFactorAuthRules
                  = (if mfaRules = [] then None else Some (GList mfaRules)))
     \<and> (wellTyped d
          \<and> (\<exists>key \<in> set trackedFields. key \<noteq> ''multi_factor_auth_rule'' \<and> HasChange d key)
         \<longrightarrow> (\<exists>c. updateRequests (events (resourceIdentityUserV3Update d config)) = [c]))"
proof (intro conjI ballI impI)
  fix c assume "c \<in> set (updateRequests (events (resourceIdentityUserV3Update d config)))"
  from Update_request_cases [OF this] obtain hasChange updateOpts where
    l: "updateOptsLogged d = Some (hasChange, updateOpts)"
    and p: "updPassword d (hasChange, updateOpts) = Some (True, c)" by force
  from updateOptsLogged_result(5) [OF l] assms(2) updPassword_result(2) [OF p]
  show "\<exists>rules mfaRules. GetList d ''multi_factor_auth_rule'' = Some rules
             \<and> resourceIdentityUserV3BuildMFARules rules = Some mfaRules
             \<and> Options c MultiFactorAuthRules
                  = (if mfaRules = [] then None else Some (GList mfaRules))"
    by simp
next
  assume a: "wellTyped d
          \<and> (\<exists>key \<in> set trackedFields. key \<noteq> ''multi_factor_auth_rule'' \<and> HasChange d key)"
  with Update_requests_typed [OF conjunct1 [OF a] assms(1)]
  show "\<exists>c. updateRequests (events (resourceIdentityUserV3Update d config)) = [c]"
    by auto
qed

text \<open>
  An update that changes the description and sets one rule group: the request carries the
  new sequence of rule lists.
\<close>

theorem C2_Update_rules_witness:
  "identityV3Client configMFA (GetRegion configMFA snapshotRules) = Inr clientMFA
   \<and> HasChange snapshotRules ''multi_factor_auth_rule''
   \<and> wellTyped snapshotRules
   \<and> HasChange snapshotRules ''description''
   \<and> map (optionOf MultiFactorAuthRules)
        (updateRequests (events (resourceIdentityUserV3Update snapshotRules configMFA)))
      = [Some (GList [GList [GString ''otp'']])]"
  using C2_Update_rules [of configMFA snapshotRules clientMFA]
  by (simp add: client_configMFA wellTyped_snapshotRules Update_snapshotRules optionOf_def)
    (simp add: example_defs snapshot_defs)

text \<open>
  The claim as stated fails: the rule list changes from one group to none and the
  description changes too; the recomputed sequence is empty, and the update request that
  is sent has no MFA-rules entry at all, so the change of the rules is not in the payload.
\<close>

theorem C2_rules_cleared_counterexample:
  "HasChange snapshotRulesCleared ''multi_factor_auth_rule''
   \<and> GetList snapshotRulesCleared ''multi_factor_auth_rule'' = Some []
   \<and> resourceIdentityUserV3BuildMFARules [] = Some []
   \<and> map (optionOf MultiFactorAuthRules)
        (updateRequests (events (resourceIdentityUserV3Update snapshotRulesCleared configMFA)))
      = [None]"
  by (simp add: Update_snapshotRulesCleared optionOf_def zeroOpts_def)
    (simp add: example_defs snapshot_defs resourceIdentityUserV3BuildMFARules_def)

section \<open>Read: the MFA rules\<close>

text \<open>
  C3, as amended. On a successful fetch whose flag values are booleans, Read returns without
  error and: if the returned options map holds the MFA-rules key as a sequence and every
  entry of the sequence is a list of strings, the snapshot's \<open>multi_factor_auth_rule\<close>
  field reads back as one group per entry of that sequence, in order, each group holding
  the entry under \<open>rule\<close>; otherwise (the key is absent, its value is not a sequence, or
  an entry is not a list of strings, so that \<open>Set\<close> refuses the rebuilt value and its error
  is dropped) the field is not written and reads back as it did before.
\<close>

theorem C3_Read_rules:
  assumes "identityV3Client config (GetRegion config d) = Inr client"
    and "usersGet client (Id d) = Inr user"
    and "flagsAreBool (uOptions user)"
  shows "\<exists>d'. resourceIdentityUserV3Read d config
            = Return None d' [CallGet (Id d), LogRetrievedUser user]
      \<and> (case uOptions user ''multi_factor_auth_rules'' of
            Some (GList vs) \<Rightarrow>
              if list_all stringList vs
              then Get d' ''multi_factor_auth_rule''
                     = Some (GList (map (\<lambda>v. GMap [(''rule'', v)]) vs))
              else rd_set d' ''multi_factor_auth_rule'' = rd_set d ''multi_factor_auth_rule''
                \<and> Get d' ''multi_factor_auth_rule'' = Get d ''multi_factor_auth_rule''
          | _ \<Rightarrow> rd_set d' ''multi_factor_auth_rule'' = rd_set d ''multi_factor_auth_rule''
                \<and> Get d' ''multi_factor_auth_rule'' = Get d ''multi_factor_auth_rule'')"
proof -
  from Read_fetched [OF assms] obtain d1 where
    rd: "resourceIdentityUserV3Read d config
          = Return None (readMFARules (uOptions user) d1) [CallGet (Id d), LogRetrievedUser user]"
    and plan: "rd_plan d1 = rd_plan d"
    and written: "\<forall>k. rd_set d1 k = (if k \<in> snd ` set userOptions \<and> uOptions user k \<noteq> None then uOptions user k
                             else rd_set (readScalars config user d) k)"
    by blast
  let ?d' = "readMFARules (uOptions user) d1"
  have notflag: "''multi_factor_auth_rule'' \<notin> snd ` set userOptions"
    by (simp add: userOptions_def)
  have inSchema: "map_of Schema ''multi_factor_auth_rule'' \<noteq> None" by (simp add: Schema_def)
  have d1: "rd_set d1 ''multi_factor_auth_rule'' = rd_set d ''multi_factor_auth_rule''"
    using written notflag by (simp add: readScalars_other)
  have unch: "rd_set ?d' ''multi_factor_auth_rule'' = rd_set d ''multi_factor_auth_rule''
                \<and> Get ?d' ''multi_factor_auth_rule'' = Get d ''multi_factor_auth_rule''"
    if e: "?d' = d1"
  proof -
    have s: "rd_set ?d' ''multi_factor_auth_rule'' = rd_set d ''multi_factor_auth_rule''"
      unfolding e by (rule d1)
    have p: "rd_plan ?d' = rd_plan d" unfolding e by (rule plan)
    from s Get_eq [OF p s] show ?thesis by simp
  qed
  have "case uOptions user ''multi_factor_auth_rules'' of
            Some (GList vs) \<Rightarrow>
              if list_all stringList vs
              then Get ?d' ''multi_factor_auth_rule''
                     = Some (GList (map (\<lambda>v. GMap [(''rule'', v)]) vs))
              else rd_set ?d' ''multi_factor_auth_rule'' = rd_set d ''multi_factor_auth_rule''
                \<and> Get ?d' ''multi_factor_auth_rule'' = Get d ''multi_factor_auth_rule''
          | _ \<Rightarrow> rd_set ?d' ''multi_factor_auth_rule'' = rd_set d ''multi_factor_auth_rule''
                \<and> Get ?d' ''multi_factor_auth_rule'' = Get d ''multi_factor_auth_rule''"
  proof (cases "uOptions user ''multi_factor_auth_rules''")
    case None
    then have "?d' = d1" by (simp add: readMFARules_absent)
    from unch [OF this] None show ?thesis by simp
  next
    case (Some v)
    show ?thesis
    proof (cases v)
      case (GList vs)
      show ?thesis
      proof (cases "list_all stringList vs")
        case True
        have "rd_set ?d' ''multi_factor_auth_rule''
            = Some (GList (map (\<lambda>v. GMap [(''rule'', v)]) vs))"
          by (rule readMFARules_written) (use Some GList True in simp_all)
        from Get_written [OF this inSchema] Some GList True show ?thesis by simp
      next
        case False
        have "?d' = d1"
          by (rule readMFARules_refused [of _ vs]) (use Some GList False in simp_all)
        from unch [OF this] Some GList False show ?thesis by simp
      qed
    next
      case (GString x)
      with Some have "?d' = d1" by (simp add: readMFARules_absent)
      from unch [OF this] Some GString show ?thesis by simp
    next
      case (GBool x)
      with Some have "?d' = d1" by (simp add: readMFARules_absent)
      from unch [OF this] Some GBool show ?thesis by simp
    next
      case (GMap x)
      with Some have "?d' = d1" by (simp add: readMFARules_absent)
      from unch [OF this] Some GMap show ?thesis by simp
    qed
  qed
  with rd show ?thesis by blast
qed

text \<open>
  The remote answer of the scenario, with the rules sequence \<open>[["otp","sms"]]\<close>: the field
  reads back as the one group \<open>{rule: ["otp","sms"]}\<close>. The answer with the sequence
  \<open>["sms","pw"]\<close>, whose entries are strings and not lists: the field keeps the group
  \<open>{rule: ["otp"]}\<close> it held.
\<close>

theorem C3_Read_rules_witness:
  "identityV3Client configMFA (GetRegion configMFA snapshotStale) = Inr clientMFA
   \<and> usersGet clientMFA (Id snapshotStale) = Inr (exampleUser optionsMFA)
   \<and> flagsAreBool (uOptions (exampleUser optionsMFA))
   \<and> readBack (resourceIdentityUserV3Read snapshotStale configMFA) ''multi_factor_auth_rule''
      = Some (GList [GMap [(''rule'', GList [GString ''otp'', GString ''sms''])]])
   \<and> identityV3Client configMalformed (GetRegion configMalformed snapshotStale)
      = Inr (exampleClient (Inr (exampleUser optionsMalformed)))
   \<and> usersGet (exampleClient (Inr (exampleUser optionsMalformed))) (Id snapshotStale)
      = Inr (exampleUser optionsMalformed)
   \<and> flagsAreBool (uOptions (exampleUser optionsMalformed))
   \<and> readBack (resourceIdentityUserV3Read snapshotStale configMalformed) ''multi_factor_auth_rule''
      = Some (GList [GMap [(''rule'', GList [GString ''otp''])]])"
  using C3_Read_rules [of configMFA snapshotStale clientMFA "exampleUser optionsMFA"]
    C3_Read_rules [of configMalformed snapshotStale
      "exampleClient (Inr (exampleUser optionsMalformed))" "exampleUser optionsMalformed"]
  by (simp add: client_configMFA)
    (simp add: example_defs snapshot_defs read_defs flagsAreBool_def)

text \<open>
  The claim as stated fails: the snapshot holds one rule group, the remote answer has no
  MFA-rules key, and after Read the field still holds that group; it is not empty.
\<close>

theorem C3_stale_rules_counterexample:
  "uOptions (exampleUser optionsNone) ''multi_factor_auth_rules'' = None
   \<and> readBack (resourceIdentityUserV3Read snapshotStale configPlain) ''multi_factor_auth_rule''
      = Some (GList [GMap [(''rule'', GList [GString ''otp''])]])"
  by (simp add: example_defs snapshot_defs read_defs)

section \<open>Update: when the remote call is issued\<close>

text \<open>
  C4 at the input where only \<open>multi_factor_auth_rule\<close> has changed (from no group to one
  group): that tracked field has changed, Update sends no update request, and it goes on to
  Read. Lines 258-263 never assign \<open>hasChange\<close>.
\<close>

theorem C4_rules_only_no_update_call:
  "map (HasChange snapshotRulesOnly) trackedFields =
     [False, False, False, False, False, False, False, False, False, False, False, True]
   \<and> updateRequests (events (resourceIdentityUserV3Update snapshotRulesOnly configMFA)) = []
   \<and> getRequests (events (resourceIdentityUserV3Update snapshotRulesOnly configMFA)) = [''u1'']"
  by (simp add: changes_snapshotRulesOnly Update_snapshotRulesOnly)

section \<open>BuildMFARules\<close>

text \<open>
  C5. BuildMFARules is a function of its input alone. On a list of N groups that each carry a
  \<open>rule\<close> field it returns (without panic) a sequence of exactly N entries, the i-th being
  the i-th group's rule list as it is, whatever it holds; on the empty input it returns the
  empty sequence.
\<close>

theorem C5_BuildMFARules_flattens:
  "(list_all hasRule rules \<longrightarrow>
      (\<exists>out. resourceIdentityUserV3BuildMFARules rules = Some out
         \<and> length out = length rules
         \<and> (\<forall>i < length rules. out ! i = ruleOf (rules ! i))))
   \<and> resourceIdentityUserV3BuildMFARules [] = Some []"
  by (simp add: BuildMFARules_map)

theorem C5_BuildMFARules_flattens_witness:
  "list_all hasRule [GMap [(''rule'', GList [GString ''otp'', GString ''sms''])], GMap [(''rule'', GList [])]]
   \<and> resourceIdentityUserV3BuildMFARules
        [GMap [(''rule'', GList [GString ''otp'', GString ''sms''])], GMap [(''rule'', GList [])]]
      = Some [GList [GString ''otp'', GString ''sms''], GList []]"
  using C5_BuildMFARules_flattens
    [of "[GMap [(''rule'', GList [GString ''otp'', GString ''sms''])], GMap [(''rule'', GList [])]]"]
  by (simp add: resourceIdentityUserV3BuildMFARules_def)

section \<open>Read: a missing entity\<close>

text \<open>
  C6. In a Read that has its client: when the remote service reports the entity missing,
  Read returns no error and leaves the snapshot with the empty identifier, which removes
  the local record; it writes no field and logs nothing. When the fetch fails in any other
  way, Read returns an error and leaves the snapshot, its identifier included, as it was.
\<close>

theorem C6_Read_missing:
  assumes "identityV3Client config (GetRegion config d) = Inr client"
  shows "(usersGet client (Id d) = Inl ErrDefault404 \<longrightarrow>
            resourceIdentityUserV3Read d config
              = Return None (d\<lparr>rd_id := ''''\<rparr>) [CallGet (Id d)]
            \<and> returned (resourceIdentityUserV3Read d config) = Some None
            \<and> leftId (resourceIdentityUserV3Read d config) = Some '''')
     \<and> (\<forall>err. usersGet client (Id d) = Inl err \<and> err \<noteq> ErrDefault404 \<longrightarrow>
            (\<exists>e. resourceIdentityUserV3Read d config = Return (Some e) d [CallGet (Id d)])
            \<and> returned (resourceIdentityUserV3Read d config) \<noteq> Some None
            \<and> leftId (resourceIdentityUserV3Read d config) = Some (Id d))"
  using assms
  by (auto simp: resourceIdentityUserV3Read_def CheckDeleted_def SetId_def Id_def
      split: goerr.splits)

text \<open>
  The stored user \<open>u1\<close>, read against a service that answers "not found" and against one
  that answers with a timeout.
\<close>

theorem C6_Read_missing_witness:
  "identityV3Client configMissing (GetRegion configMissing snapshotStale)
      = Inr (exampleClient (Inl ErrDefault404))
   \<and> usersGet (exampleClient (Inl ErrDefault404)) (Id snapshotStale) = Inl ErrDefault404
   \<and> Id snapshotStale = ''u1''
   \<and> returned (resourceIdentityUserV3Read snapshotStale configMissing) = Some None
   \<and> leftId (resourceIdentityUserV3Read snapshotStale configMissing) = Some ''''
   \<and> events (resourceIdentityUserV3Read snapshotStale configMissing) = [CallGet ''u1'']
   \<and> identityV3Client configFailing (GetRegion configFailing snapshotStale)
      = Inr (exampleClient (Inl (ErrMsg ''timeout'')))
   \<and> usersGet (exampleClient (Inl (ErrMsg ''timeout''))) (Id snapshotStale)
      = Inl (ErrMsg ''timeout'')
   \<and> returned (resourceIdentityUserV3Read snapshotStale configFailing)
      = Some (Some (ErrMsg ''timeout''))
   \<and> leftId (resourceIdentityUserV3Read snapshotStale configFailing) = Some ''u1''"
  using C6_Read_missing [of configMissing snapshotStale "exampleClient (Inl ErrDefault404)"]
    C6_Read_missing [of configFailing snapshotStale "exampleClient (Inl (ErrMsg ''timeout''))"]
  by (simp add: configMissing_def configFailing_def exampleConfig_def exampleClient_def
      resourceIdentityUserV3Read_def CheckDeleted_def)
    (simp add: example_defs Id_def SetId_def)

section \<open>The enabled field\<close>

text \<open>
  C7. Every create request carries an explicit boolean for \<open>enabled\<close>, the snapshot's
  value. Every update request of a run in which \<open>enabled\<close> has changed carries an explicit
  boolean, the snapshot's value; in a run in which it has not changed the request leaves
  it out.
\<close>

theorem C7_enabled_explicit:
  "(\<forall>c \<in> set (createRequests (events (resourceIdentityUserV3Create d config))).
      \<exists>b. Enabled c = Some b \<and> GetBool d ''enabled'' = Some b)
   \<and> (\<forall>c \<in> set (updateRequests (events (resourceIdentityUserV3Update d config))).
        if HasChange d ''enabled''
        then \<exists>b. Enabled c = Some b \<and> GetBool d ''enabled'' = Some b
        else Enabled c = None)"
proof (intro conjI ballI)
  fix c assume "c \<in> set (createRequests (events (resourceIdentityUserV3Create d config)))"
  from Create_request_cases [OF this] obtain logged password where
    l: "createOptsLogged d = Some logged" and c: "c = logged\<lparr>Password := password\<rparr>" by blast
  from createOptsLogged_fields(2,3) [OF l] c
  show "\<exists>b. Enabled c = Some b \<and> GetBool d ''enabled'' = Some b" by auto
next
  fix c assume "c \<in> set (updateRequests (events (resourceIdentityUserV3Update d config)))"
  from Update_request_cases [OF this] obtain hasChange updateOpts where
    l: "updateOptsLogged d = Some (hasChange, updateOpts)"
    and p: "updPassword d (hasChange, updateOpts) = Some (True, c)" by force
  from updateOptsLogged_result(3,4) [OF l] updPassword_result(3) [OF p]
  show "if HasChange d ''enabled''
        then \<exists>b. Enabled c = Some b \<and> GetBool d ''enabled'' = Some b
        else Enabled c = None" by auto
qed

text \<open>
  The create scenario sends \<open>enabled = true\<close>; the update that disables the user sends
  \<open>enabled = false\<close>.
\<close>

theorem C7_enabled_explicit_witness:
  "map Enabled (createRequests (events (resourceIdentityUserV3Create snapshotCreate configMFA)))
      = [Some True]
   \<and> GetBool snapshotCreate ''enabled'' = Some True
   \<and> HasChange snapshotEnabled ''enabled''
   \<and> map Enabled (updateRequests (events (resourceIdentityUserV3Update snapshotEnabled configMFA)))
      = [Some False]
   \<and> GetBool snapshotEnabled ''enabled'' = Some False"
  using C7_enabled_explicit [of snapshotCreate configMFA]
    C7_enabled_explicit [of snapshotEnabled configMFA]
  by (simp add: Create_snapshotCreate Update_snapshotEnabled zeroOpts_def)
    (simp add: example_defs snapshot_defs)

section \<open>The password and the debug log\<close>

text \<open>
  C8, as amended. Take a snapshot with schema-typed values and the same snapshot with
  another planned password, a region that does not depend on the password, a remote service
  whose answer to a create request does not depend on the request's password and which
  accepts every update request. Then the debug log of Create is the same in both runs, and
  so is the debug log of Update; every logged create or update payload has an empty
  password; the create request of each run carries that run's password; an update request
  carries the run's password when the password has changed since the last known state, and
  carries no password when it has not.
\<close>

theorem C8_password_not_logged:
  assumes typed: "wellTyped d"
    and region: "\<forall>d'. GetRegion config (withPassword d' p) = GetRegion config d'"
    and client: "identityV3Client config (GetRegion config d) = Inr client"
    and created: "\<forall>c pw. usersCreate client (c\<lparr>Password := pw\<rparr>) = usersCreate client c"
    and updated: "\<forall>c. \<exists>u. usersUpdate client (Id d) c = Inr u"
  shows "debugLog (events (resourceIdentityUserV3Create (withPassword d p) config))
           = debugLog (events (resourceIdentityUserV3Create d config))
     \<and> debugLog (events (resourceIdentityUserV3Update (withPassword d p) config))
           = debugLog (events (resourceIdentityUserV3Update d config))
     \<and> (\<forall>d' \<in> {d, withPassword d p}.
          (\<forall>c. LogCreateOptions c \<in> set (events (resourceIdentityUserV3Create d' config))
                \<longrightarrow> Password c = '''')
          \<and> (\<forall>c. LogUpdateOptions c \<in> set (events (resourceIdentityUserV3Update d' config))
                \<longrightarrow> Password c = '''')
          \<and> (\<exists>c. createRequests (events (resourceIdentityUserV3Create d' config)) = [c]
                \<and> GetString d' ''password'' = Some (Password c))
          \<and> (\<forall>c \<in> set (updateRequests (events (resourceIdentityUserV3Update d' config))).
                if HasChange d' ''password'' then GetString d' ''password'' = Some (Password c)
                else Password c = ''''))"
    (is "_ \<and> _ \<and> (\<forall>d' \<in> _. ?P d')")
proof -
  have "map_of Schema ''password'' = Some TypeString" by (simp add: Schema_def)
  from typed_string [OF typed this] have pw: "\<exists>v. GetString d ''password'' = Some v" .
  have client': "identityV3Client config (GetRegion config (withPassword d p)) = Inr client"
    using client region by simp
  note typed' = withPassword_wellTyped [OF typed, of p]
  note log1 = Create_log_independent [OF pw region client created]
  note log2 = Update_log_independent [OF pw region client updated]
  note run1 = single_run_password [OF typed client]
  note run2 = single_run_password [OF typed' client']
  show ?thesis
  proof (rule conjI [OF log1 conjI [OF log2 ballI]])
    fix d' assume "d' \<in> {d, withPassword d p}"
    then consider "d' = d" | "d' = withPassword d p" by blast
    then show "?P d'"
    proof cases
      case 1
      show ?thesis unfolding 1 by (rule run1)
    next
      case 2
      show ?thesis unfolding 2 by (rule run2)
    qed
  qed
qed

text \<open>
  The update of the description, run with the stored password and with the password
  \<open>hunter2\<close>: both runs write the same debug log, and the second request carries
  \<open>hunter2\<close>.
\<close>

theorem C8_password_not_logged_witness:
  "wellTyped snapshotDescription
   \<and> (\<forall>d'. GetRegion configMFA (withPassword d' ''hunter2'') = GetRegion configMFA d')
   \<and> identityV3Client configMFA (GetRegion configMFA snapshotDescription) = Inr clientMFA
   \<and> (\<forall>c pw. usersCreate clientMFA (c\<lparr>Password := pw\<rparr>) = usersCreate clientMFA c)
   \<and> (\<forall>c. \<exists>u. usersUpdate clientMFA (Id snapshotDescription) c = Inr u)
   \<and> debugLog (events (resourceIdentityUserV3Create (withPassword snapshotDescription ''hunter2'') configMFA))
       = debugLog (events (resourceIdentityUserV3Create snapshotDescription configMFA))
   \<and> debugLog (events (resourceIdentityUserV3Update (withPassword snapshotDescription ''hunter2'') configMFA))
       = debugLog (events (resourceIdentityUserV3Update snapshotDescription configMFA))
   \<and> map Password
        (updateRequests (events (resourceIdentityUserV3Update
           (withPassword snapshotDescription ''hunter2'') configMFA)))
       = [''hunter2'']"
  using C8_password_not_logged [of snapshotDescription configMFA "''hunter2''" clientMFA]
  by (simp add: wellTyped_snapshotDescription client_configMFA
      Update_snapshotDescription_other_password)
    (simp add: configMFA_def clientMFA_def exampleConfig_def exampleClient_def)

text \<open>
  The claim as stated fails for Update: in the run with the stored password the password
  has not changed, and the update request that is sent for the new description carries an
  empty password, not that run's password \<open>s3cret\<close>.
\<close>

theorem C8_unchanged_password_counterexample:
  "GetString snapshotDescription ''password'' = Some ''s3cret''
   \<and> map Password
        (updateRequests (events (resourceIdentityUserV3Update snapshotDescription configMFA)))
       = ['''']
   \<and> map Password
        (updateRequests (events (resourceIdentityUserV3Update
           (withPassword snapshotDescription ''hunter2'') configMFA)))
       = [''hunter2'']"
  by (simp add: Update_snapshotDescription Update_snapshotDescription_other_password zeroOpts_def)
    (simp add: example_defs snapshot_defs)

section \<open>Update: only the description\<close>

text \<open>
  C9. In an Update with a client in which, of all tracked fields, only \<open>description\<close> has
  changed, one update request is sent and it is the zero-valued payload with the new
  description: no option flag, no rules entry and no other field value is in it.
\<close>

theorem C9_Update_only_description:
  assumes "identityV3Client config (GetRegion config d) = Inr client"
    and "\<forall>key \<in> set trackedFields. HasChange d key = (key = ''description'')"
    and "GetString d ''description'' = Some new"
  shows "updateRequests (events (resourceIdentityUserV3Update d config))
           = [zeroOpts\<lparr>Description := new\<rparr>]"
  using Update_events [OF assms(1) only_description [OF assms(2,3)]]
  by (simp split: sum.splits)

theorem C9_Update_only_description_witness:
  "identityV3Client configMFA (GetRegion configMFA snapshotDescription) = Inr clientMFA
   \<and> map (HasChange snapshotDescription) trackedFields =
       [False, True, False, False, False, False, False, False, False, False, False, False]
   \<and> GetString snapshotDescription ''description'' = Some ''new''
   \<and> updateRequests (events (resourceIdentityUserV3Update snapshotDescription configMFA))
       = [\<lparr>DefaultProjectID = '''', Description = ''new'', DomainID = '''', Enabled = None,
           Extra = [], Name = '''', Options = Map.empty, Password = ''''\<rparr>]"
  using C9_Update_only_description [of configMFA snapshotDescription clientMFA "''new''"]
  by (simp add: client_configMFA Update_snapshotDescription zeroOpts_def)
    (simp add: trackedFields_def example_defs snapshot_defs)

section \<open>Read: the option flags\<close>

text \<open>
  C10. On a successful fetch whose flag values are booleans, Read returns without error and,
  for each of the four flags: when the returned options map holds the flag's key, the
  returned value is written to the snapshot field; when it does not, the field is not
  written and reads back as it did before.
\<close>

theorem C10_Read_flags:
  assumes "identityV3Client config (GetRegion config d) = Inr client"
    and "usersGet client (Id d) = Inr user"
    and "flagsAreBool (uOptions user)"
  shows "\<exists>d'. resourceIdentityUserV3Read d config
            = Return None d' [CallGet (Id d), LogRetrievedUser user]
      \<and> (\<forall>(optionType, option) \<in> set userOptions.
            case uOptions user option of
              Some v \<Rightarrow> rd_set d' option = Some v \<and> Get d' option = Some v
            | None \<Rightarrow> rd_set d' option = rd_set d option \<and> Get d' option = Get d option)"
proof -
  from Read_fetched [OF assms] obtain d1 where
    rd: "resourceIdentityUserV3Read d config
          = Return None (readMFARules (uOptions user) d1) [CallGet (Id d), LogRetrievedUser user]"
    and plan: "rd_plan d1 = rd_plan d"
    and written: "\<forall>k. rd_set d1 k = (if k \<in> snd ` set userOptions \<and> uOptions user k \<noteq> None then uOptions user k
                             else rd_set (readScalars config user d) k)"
    by blast
  let ?d' = "readMFARules (uOptions user) d1"
  have "case uOptions user option of
              Some v \<Rightarrow> rd_set ?d' option = Some v \<and> Get ?d' option = Some v
            | None \<Rightarrow> rd_set ?d' option = rd_set d option \<and> Get ?d' option = Get d option"
    if mem: "(optionType, option) \<in> set userOptions" for optionType option
  proof -
    from flags_not_scalars [OF mem] have ns: "option \<notin> {''default_project_id'', ''description'', ''domain_id'', ''enabled'', ''extra'', ''name'', ''region''}"
      and nm: "option \<noteq> ''multi_factor_auth_rule''" by simp_all
    from mem have inn: "option \<in> snd ` set userOptions" by force
    have s1: "rd_set ?d' option = rd_set d1 option" using nm by (rule readMFARules_other)
    show ?thesis
    proof (cases "uOptions user option")
      case None
      with written s1 readScalars_other [OF ns] have e: "rd_set ?d' option = rd_set d option" by simp
      have p: "rd_plan ?d' = rd_plan d" using plan by simp
      show ?thesis using None e Get_eq [OF p e] by simp
    next
      case (Some v)
      with written s1 inn have w: "rd_set ?d' option = Some v" by simp
      with Get_written [OF w] Schema_flags [OF mem] Some show ?thesis by simp
    qed
  qed
  with rd show ?thesis by blast
qed

text \<open>
  A snapshot that holds \<open>ignore_password_expiry = true\<close>, read against an answer that
  carries \<open>multi_factor_auth_enabled\<close> only: the first field keeps its value, the second
  is written.
\<close>

theorem C10_Read_flags_witness:
  "identityV3Client configMFA (GetRegion configMFA snapshotFlag) = Inr clientMFA
   \<and> usersGet clientMFA (Id snapshotFlag) = Inr (exampleUser optionsMFA)
   \<and> flagsAreBool (uOptions (exampleUser optionsMFA))
   \<and> uOptions (exampleUser optionsMFA) ''ignore_password_expiry'' = None
   \<and> readBack (resourceIdentityUserV3Read snapshotFlag configMFA) ''ignore_password_expiry''
       = Some (GBool True)
   \<and> readBack (resourceIdentityUserV3Read snapshotFlag configMFA) ''multi_factor_auth_enabled''
       = Some (GBool True)"
  using C10_Read_flags [of configMFA snapshotFlag clientMFA "exampleUser optionsMFA"]
  by (simp add: client_configMFA)
    (simp add: example_defs snapshot_defs read_defs flagsAreBool_def)

end
